theory Spec2Isabelle
  imports Complex_Main
begin

section \<open>JavaScript strings\<close>

text \<open>
  A JavaScript string is a sequence of UTF-16 code units. A code unit is modelled by its
  number, a string by the list of its code units; \<open>str\<close> embeds an ASCII literal.
  The literals of the sources are ASCII apart from the bullets and dashes of the resume
  parser, which are written as numbers where they occur.
\<close>

type_synonym jstring = "nat list"

definition str :: "string \<Rightarrow> jstring" where
  "str s = map of_char s"

text \<open>\<open>s.startsWith(p)\<close> and \<open>s.includes(p)\<close>: \<open>p\<close> occurs at the start of \<open>s\<close>,
  respectively somewhere in \<open>s\<close>, as a contiguous run of code units.\<close>

fun startsWith :: "jstring \<Rightarrow> jstring \<Rightarrow> bool" where
  "startsWith s [] = True"
| "startsWith [] (p # ps) = False"
| "startsWith (c # cs) (p # ps) = (c = p \<and> startsWith cs ps)"

fun includesStr :: "jstring \<Rightarrow> jstring \<Rightarrow> bool" where
  "includesStr [] p = (p = [])"
| "includesStr (c # cs) p = (startsWith (c # cs) p \<or> includesStr cs p)"

section \<open>Form detector: data model\<close>

text \<open>
  The object returned by \<open>FormDetector.getFieldMetadata\<close> (formDetector.js, lines 154-176).
  The string fields are lower-cased there. \<open>dataAttributes\<close> is an object
  filled in attribute order, read back with \<open>Object.entries\<close>: an association list.
  The fields \<open>id\<close>, \<open>value\<close>, \<open>min\<close> and \<open>max\<close> carry a suffix, their names being taken in HOL.
\<close>

record fieldMetadata =
  id_attr :: jstring
  name :: jstring
  type :: jstring
  placeholder :: jstring
  className :: jstring
  value_attr :: jstring
  autocomplete :: jstring
  ariaLabel :: jstring
  ariaLabelledBy :: jstring
  ariaDescribedBy :: jstring
  title :: jstring
  dataAttributes :: "(jstring \<times> jstring) list"
  labelText :: jstring
  labelForField :: bool
  required :: bool
  pattern :: jstring
  minLength :: int
  maxLength :: int
  min_attr :: jstring
  max_attr :: jstring
  options :: "jstring list"

section \<open>Form detector: the pattern catalog\<close>

text \<open>
  The table \<open>patterns\<close> of \<open>categorizeField\<close> (lines 229-348). \<open>Object.entries\<close>
  walks string keys in insertion order, so the table is a list of categories, each a list
  of subcategories with their trigger phrases, in the order of the source.
\<close>

definition patterns :: "(jstring \<times> (jstring \<times> jstring list) list) list" where
  "patterns =
   [(str ''personal'',
      [(str ''name'', map str [''name'', ''full name'', ''full_name'']),
       (str ''firstName'', map str [''first name'', ''firstname'', ''first_name'', ''fname'',
          ''given name'', ''given_name'']),
       (str ''lastName'', map str [''last name'', ''lastname'', ''last_name'', ''lname'',
          ''family name'', ''surname'']),
       (str ''middleName'', map str [''middle name'', ''middlename'', ''middle_name'', ''mname'',
          ''middle initial'']),
       (str ''email'', map str [''email'', ''e-mail'', ''email address'', ''e-mail address'']),
       (str ''phone'', map str [''phone'', ''telephone'', ''mobile'', ''cell'', ''phone number'']),
       (str ''address'', map str [''address'', ''street'', ''street address'', ''address line'',
          ''mailing address'']),
       (str ''city'', map str [''city'', ''town'', ''municipality'']),
       (str ''state'', map str [''state'', ''province'', ''region'']),
       (str ''zipCode'', map str [''zip'', ''zipcode'', ''zip code'', ''postal'', ''postal code'']),
       (str ''country'', map str [''country'', ''nation''])]),
    (str ''education'',
      [(str ''school'', map str [''school'', ''university'', ''college'', ''institution'',
          ''academy'', ''educational institution'']),
       (str ''degree'', map str [''degree'', ''degree type'', ''diploma'', ''certification'',
          ''qualification'']),
       (str ''fieldOfStudy'', map str [''field of study'', ''major'', ''specialization'',
          ''concentration'', ''discipline'']),
       (str ''graduationDate'', map str [''graduation date'', ''graduation'', ''graduated'',
          ''completion date'', ''completion'']),
       (str ''gpa'', map str [''gpa'', ''grade point average'', ''grade average'',
          ''academic average''])]),
    (str ''experience'',
      [(str ''company'', map str [''company'', ''employer'', ''organization'', ''firm'',
          ''business'']),
       (str ''title'', map str [''job title'', ''title'', ''position'', ''role'', ''designation'']),
       (str ''startDate'', map str [''start date'', ''from date'', ''employment start'',
          ''date from'']),
       (str ''endDate'', map str [''end date'', ''to date'', ''employment end'', ''date to'']),
       (str ''description'', map str [''description'', ''job description'', ''responsibilities'',
          ''duties'']),
       (str ''currentJob'', map str [''current job'', ''current position'', ''current employer'',
          ''present employer''])]),
    (str ''skills'',
      [(str ''skills'', map str [''skills'', ''abilities'', ''competencies'', ''expertise'',
          ''proficiencies'']),
       (str ''languages'', map str [''languages'', ''spoken languages'',
          ''programming languages'']),
       (str ''certifications'', map str [''certifications'', ''certificates'', ''credentials'',
          ''licenses''])]),
    (str ''other'',
      [(str ''salary'', map str [''salary'', ''compensation'', ''pay'', ''wage'', ''remuneration'',
          ''expected salary'']),
       (str ''startDate'', map str [''start date'', ''availability'', ''available from'',
          ''when can you start'']),
       (str ''relocation'', map str [''relocation'', ''willing to relocate'', ''can relocate'',
          ''relocate'']),
       (str ''citizenship'', map str [''citizenship'', ''citizen'', ''work authorization'',
          ''authorized to work'', ''visa'']),
       (str ''linkedin'', map str [''linkedin'', ''linkedin url'', ''linkedin profile'']),
       (str ''website'', map str [''website'', ''personal website'', ''portfolio'', ''blog'']),
       (str ''github'', map str [''github'', ''github url'', ''github profile'', ''gitlab'']),
       (str ''twitter'', map str [''twitter'', ''twitter url'', ''twitter handle'', ''x.com'']),
       (str ''reference'', map str [''reference'', ''references'', ''referrer'', ''referral'']),
       (str ''coverLetter'', map str [''cover letter'', ''cover_letter'', ''coverletter'',
          ''letter of interest'']),
       (str ''resume'', map str [''resume'', ''cv'', ''curriculum vitae'', ''upload resume'',
          ''upload cv''])])]"

section \<open>Form detector: match score\<close>

text \<open>
  \<open>FormDetector.calculateMatchScore\<close> (lines 403-451). The outer loop runs over the
  trigger phrases, the inner one over the entries of \<open>dataAttributes\<close>; \<open>score\<close> is the
  only variable they change. The scores are small natural numbers.
\<close>

fun dataAttributeLoop :: "(jstring \<times> jstring) list \<Rightarrow> jstring \<Rightarrow> nat \<Rightarrow> nat" where
  "dataAttributeLoop [] p score = score"
| "dataAttributeLoop ((key, val) # rest) p score =
     dataAttributeLoop rest p (if includesStr key p \<or> includesStr val p then score + 1 else score)"

definition patternStep :: "'a fieldMetadata_scheme \<Rightarrow> jstring \<Rightarrow> nat \<Rightarrow> nat" where
  "patternStep metadata p score =
    (let score = (if includesStr (id_attr metadata) p then score + 3 else score);
         score = (if includesStr (name metadata) p then score + 3 else score);
         score = (if includesStr (labelText metadata) p
                  then (if labelForField metadata then score + 5 + 2 else score + 5)
                  else score);
         score = (if includesStr (placeholder metadata) p then score + 2 else score);
         score = (if includesStr (ariaLabel metadata) p then score + 3 else score);
         score = (if includesStr (title metadata) p then score + 1 else score)
     in dataAttributeLoop (dataAttributes metadata) p score)"

fun patternLoop :: "'a fieldMetadata_scheme \<Rightarrow> jstring list \<Rightarrow> nat \<Rightarrow> nat" where
  "patternLoop metadata [] score = score"
| "patternLoop metadata (p # ps) score = patternLoop metadata ps (patternStep metadata p score)"

definition calculateMatchScore :: "'a fieldMetadata_scheme \<Rightarrow> jstring list \<Rightarrow> nat" where
  "calculateMatchScore metadata ps = patternLoop metadata ps 0"

text \<open>
  The score as the specification words it: the sum over the trigger phrases of the
  weighted channels that contain the phrase.
\<close>

definition phraseWeight :: "'a fieldMetadata_scheme \<Rightarrow> jstring \<Rightarrow> nat" where
  "phraseWeight metadata p =
     (if includesStr (labelText metadata) p then 5 + (if labelForField metadata then 2 else 0) else 0)
   + (if includesStr (id_attr metadata) p then 3 else 0)
   + (if includesStr (name metadata) p then 3 else 0)
   + (if includesStr (ariaLabel metadata) p then 3 else 0)
   + (if includesStr (placeholder metadata) p then 2 else 0)
   + (if includesStr (title metadata) p then 1 else 0)
   + length (filter (\<lambda>(key, val). includesStr key p \<or> includesStr val p) (dataAttributes metadata))"

definition matchScoreSpec :: "'a fieldMetadata_scheme \<Rightarrow> jstring list \<Rightarrow> nat" where
  "matchScoreSpec metadata ps = sum_list (map (phraseWeight metadata) ps)"

section \<open>Form detector: categorisation\<close>

text \<open>
  \<open>FormDetector.categorizeField\<close> (lines 350-394). The state of the two nested loops is
  \<open>(category, subcategory, highestMatchScore)\<close>; a pair replaces the best one only with a
  strictly larger score.
\<close>

type_synonym best = "jstring \<times> jstring \<times> nat"

fun subcategoryLoop ::
  "'a fieldMetadata_scheme \<Rightarrow> jstring \<Rightarrow> (jstring \<times> jstring list) list \<Rightarrow> best \<Rightarrow> best" where
  "subcategoryLoop metadata cat [] b = b"
| "subcategoryLoop metadata cat ((subcat, ps) # rest) (category, subcategory, highestMatchScore) =
     (let matchScore = calculateMatchScore metadata ps
      in subcategoryLoop metadata cat rest
           (if matchScore > highestMatchScore then (cat, subcat, matchScore)
            else (category, subcategory, highestMatchScore)))"

fun categoryLoop ::
  "'a fieldMetadata_scheme \<Rightarrow> (jstring \<times> (jstring \<times> jstring list) list) list \<Rightarrow> best \<Rightarrow> best" where
  "categoryLoop metadata [] b = b"
| "categoryLoop metadata ((cat, subcats) # rest) b =
     categoryLoop metadata rest (subcategoryLoop metadata cat subcats b)"

definition bestPattern :: "'a fieldMetadata_scheme \<Rightarrow> best" where
  "bestPattern metadata = categoryLoop metadata patterns (str ''unknown'', str ''unknown'', 0)"

text \<open>The chain of type and autocomplete rules of lines 370-391.\<close>

definition fieldTypeHeuristics ::
  "'a fieldMetadata_scheme \<Rightarrow> jstring \<times> jstring \<Rightarrow> jstring \<times> jstring" where
  "fieldTypeHeuristics metadata cs =
    (if type metadata = str ''email'' then (str ''personal'', str ''email'')
     else if type metadata = str ''tel'' then (str ''personal'', str ''phone'')
     else if autocomplete metadata = str ''address-line1'' then (str ''personal'', str ''address'')
     else if autocomplete metadata = str ''address-level2'' then (str ''personal'', str ''city'')
     else if autocomplete metadata = str ''address-level1'' then (str ''personal'', str ''state'')
     else if autocomplete metadata = str ''postal-code'' then (str ''personal'', str ''zipCode'')
     else if autocomplete metadata = str ''country'' then (str ''personal'', str ''country'')
     else cs)"

definition categorizeField :: "'a fieldMetadata_scheme \<Rightarrow> jstring \<times> jstring" where
  "categorizeField metadata =
    (case bestPattern metadata of (category, subcategory, highestMatchScore) \<Rightarrow>
       if category = str ''unknown'' \<or> highestMatchScore < 3
       then fieldTypeHeuristics metadata (category, subcategory)
       else (category, subcategory))"

section \<open>Form detector: confidence\<close>

text \<open>
  \<open>FormDetector.calculateConfidence\<close> (lines 460-525). The source computes with
  JavaScript numbers; the decimal constants are read as exact rationals, and
  \<open>Math.min\<close> is \<open>min\<close>. \<open>Array.prototype.includes\<close> on \<open>options\<close> is membership.
\<close>

definition calculateConfidence :: "'a fieldMetadata_scheme \<Rightarrow> jstring \<Rightarrow> jstring \<Rightarrow> rat" where
  "calculateConfidence metadata category subcategory =
    (if category = str ''unknown'' then 0
     else
      let confidence = 0.5;
          confidence = (if labelForField metadata then confidence + 0.3 else confidence);
          confidence =
            (if (subcategory = str ''email'' \<and> type metadata = str ''email'') \<or>
                (subcategory = str ''phone'' \<and> type metadata = str ''tel'')
             then confidence + 0.3 else confidence);
          confidence =
            (if autocomplete metadata \<noteq> [] \<and>
                ((subcategory = str ''firstName'' \<and> autocomplete metadata = str ''given-name'') \<or>
                 (subcategory = str ''lastName'' \<and> autocomplete metadata = str ''family-name'') \<or>
                 (subcategory = str ''email'' \<and> autocomplete metadata = str ''email'') \<or>
                 (subcategory = str ''phone'' \<and> autocomplete metadata = str ''tel'') \<or>
                 (subcategory = str ''address'' \<and>
                    includesStr (autocomplete metadata) (str ''address-line'')) \<or>
                 (subcategory = str ''city'' \<and> autocomplete metadata = str ''address-level2'') \<or>
                 (subcategory = str ''state'' \<and> autocomplete metadata = str ''address-level1'') \<or>
                 (subcategory = str ''zipCode'' \<and> autocomplete metadata = str ''postal-code'') \<or>
                 (subcategory = str ''country'' \<and> autocomplete metadata = str ''country''))
             then confidence + 0.3 else confidence);
          confidence =
            (if includesStr (id_attr metadata) subcategory \<or> includesStr (name metadata) subcategory
             then confidence + 0.2 else confidence);
          confidence =
            (if required metadata \<and> labelText metadata \<noteq> [] then confidence + 0.1
             else confidence);
          confidence =
            (if options metadata \<noteq> [] \<and>
                ((subcategory = str ''country'' \<and> str ''united states'' \<in> set (options metadata)) \<or>
                 (subcategory = str ''state'' \<and> str ''california'' \<in> set (options metadata)) \<or>
                 (subcategory = str ''degree'' \<and>
                    (str ''bachelor'' \<in> set (options metadata) \<or>
                     str ''master'' \<in> set (options metadata) \<or>
                     str ''phd'' \<in> set (options metadata))))
             then confidence + 0.2 else confidence)
      in min confidence 1.0)"

text \<open>
  \<open>FormDetector.analyzeField\<close> (lines 63-80), without the element handle and the
  metadata it hands back: category, subcategory and confidence.
\<close>

type_synonym classification = "jstring \<times> jstring \<times> rat"

definition classify :: "'a fieldMetadata_scheme \<Rightarrow> classification" where
  "classify metadata =
    (case categorizeField metadata of (category, subcategory) \<Rightarrow>
       (category, subcategory, calculateConfidence metadata category subcategory))"

section \<open>Greenhouse adapter: confidence\<close>

text \<open>
  The metadata of a field under a Greenhouse wrapper (greenhouse.js, lines 59-64): the
  generic metadata and three more fields. \<open>calculateGreenhouseConfidence\<close> (lines 250-277)
  runs for such fields only, where both strings are set (possibly empty).
\<close>

record greenhouseMetadata = fieldMetadata +
  greenhouseFieldId :: jstring
  greenhouseFieldType :: jstring
  isRequired :: bool

definition calculateGreenhouseConfidence ::
  "'a greenhouseMetadata_scheme \<Rightarrow> jstring \<Rightarrow> jstring \<Rightarrow> rat" where
  "calculateGreenhouseConfidence metadata category subcategory =
    (let confidence = calculateConfidence metadata category subcategory;
         confidence =
           (if greenhouseFieldId metadata \<noteq> [] \<or> greenhouseFieldType metadata \<noteq> []
            then min (confidence + 0.15) 1.0 else confidence);
         confidence =
           (if (category = str ''personal'' \<and>
                  (subcategory = str ''firstName'' \<or> subcategory = str ''lastName'' \<or>
                   subcategory = str ''email'' \<or> subcategory = str ''phone'')) \<or>
               (category = str ''other'' \<and>
                  (subcategory = str ''resume'' \<or> subcategory = str ''coverLetter''))
            then min (confidence + 0.2) 1.0 else confidence)
     in confidence)"


section \<open>Form detector: notions used in the statements\<close>

text \<open>
  The catalog read as one list of (category, subcategory, trigger phrases), in the order
  the two loops of \<open>categorizeField\<close> visit it, and one step of those loops on such an entry.
\<close>

definition catalogEntries :: "(jstring \<times> jstring \<times> jstring list) list" where
  "catalogEntries =
     concat (map (\<lambda>(cat, subcats). map (\<lambda>(subcat, ps). (cat, subcat, ps)) subcats) patterns)"

fun entryStep ::
  "'a fieldMetadata_scheme \<Rightarrow> jstring \<times> jstring \<times> jstring list \<Rightarrow> best \<Rightarrow> best" where
  "entryStep metadata (cat, subcat, ps) (category, subcategory, highestMatchScore) =
     (if calculateMatchScore metadata ps > highestMatchScore
      then (cat, subcat, calculateMatchScore metadata ps)
      else (category, subcategory, highestMatchScore))"

text \<open>\<open>patterns[cat][subcat]\<close>, the empty list standing for a pair the catalog does not have.\<close>

definition triggerPhrases :: "jstring \<Rightarrow> jstring \<Rightarrow> jstring list" where
  "triggerPhrases cat subcat =
     (case map_of patterns cat of
        None \<Rightarrow> []
      | Some subcats \<Rightarrow> (case map_of subcats subcat of None \<Rightarrow> [] | Some ps \<Rightarrow> ps))"

text \<open>Every other catalog pair scores strictly less than the pair \<open>(cat, subcat)\<close>.\<close>

definition strictlyBest :: "'a fieldMetadata_scheme \<Rightarrow> jstring \<Rightarrow> jstring \<Rightarrow> bool" where
  "strictlyBest metadata cat subcat =
     list_all (\<lambda>(c, s, ps). (c, s) = (cat, subcat) \<or>
                 calculateMatchScore metadata ps
                   < calculateMatchScore metadata (triggerPhrases cat subcat))
       catalogEntries"

text \<open>
  The pair \<open>p\<close> is the first pair of maximal score among the entries: when its turn comes
  its score exceeds the highest score met so far (\<open>highest\<close>, 0 before the first entry),
  and no entry after it scores more. The loops of \<open>categorizeField\<close> replace the best pair
  only by a strictly better one, so this is the pair they end on.
\<close>

fun firstBestIn ::
  "'a fieldMetadata_scheme \<Rightarrow> jstring \<times> jstring \<Rightarrow> nat \<Rightarrow>
     (jstring \<times> jstring \<times> jstring list) list \<Rightarrow> bool" where
  "firstBestIn metadata p highest [] = False"
| "firstBestIn metadata p highest ((cat, subcat, ps) # rest) =
     (if (cat, subcat) = p
      then highest < calculateMatchScore metadata ps \<and>
           list_all (\<lambda>(c, s, ps'). calculateMatchScore metadata ps' \<le> calculateMatchScore metadata ps)
             rest
      else firstBestIn metadata p (max highest (calculateMatchScore metadata ps)) rest)"

definition firstBest :: "'a fieldMetadata_scheme \<Rightarrow> jstring \<Rightarrow> jstring \<Rightarrow> bool" where
  "firstBest metadata cat subcat = firstBestIn metadata (cat, subcat) 0 catalogEntries"

text \<open>The six boosts of \<open>calculateConfidence\<close>, each with the value it adds (0 when it does
  not apply), in the order of the source.\<close>

definition confidenceBoosts :: "'a fieldMetadata_scheme \<Rightarrow> jstring \<Rightarrow> rat list" where
  "confidenceBoosts metadata subcategory =
    [if labelForField metadata then 0.3 else 0,
     if (subcategory = str ''email'' \<and> type metadata = str ''email'') \<or>
        (subcategory = str ''phone'' \<and> type metadata = str ''tel'') then 0.3 else 0,
     if autocomplete metadata \<noteq> [] \<and>
                ((subcategory = str ''firstName'' \<and> autocomplete metadata = str ''given-name'') \<or>
                 (subcategory = str ''lastName'' \<and> autocomplete metadata = str ''family-name'') \<or>
                 (subcategory = str ''email'' \<and> autocomplete metadata = str ''email'') \<or>
                 (subcategory = str ''phone'' \<and> autocomplete metadata = str ''tel'') \<or>
                 (subcategory = str ''address'' \<and>
                    includesStr (autocomplete metadata) (str ''address-line'')) \<or>
                 (subcategory = str ''city'' \<and> autocomplete metadata = str ''address-level2'') \<or>
                 (subcategory = str ''state'' \<and> autocomplete metadata = str ''address-level1'') \<or>
                 (subcategory = str ''zipCode'' \<and> autocomplete metadata = str ''postal-code'') \<or>
                 (subcategory = str ''country'' \<and> autocomplete metadata = str ''country''))
     then 0.3 else 0,
     if includesStr (id_attr metadata) subcategory \<or> includesStr (name metadata) subcategory
     then 0.2 else 0,
     if required metadata \<and> labelText metadata \<noteq> [] then 0.1 else 0,
     if options metadata \<noteq> [] \<and>
                ((subcategory = str ''country'' \<and> str ''united states'' \<in> set (options metadata)) \<or>
                 (subcategory = str ''state'' \<and> str ''california'' \<in> set (options metadata)) \<or>
                 (subcategory = str ''degree'' \<and>
                    (str ''bachelor'' \<in> set (options metadata) \<or>
                     str ''master'' \<in> set (options metadata) \<or>
                     str ''phd'' \<in> set (options metadata))))
     then 0.2 else 0]"

text \<open>Concrete controls: one with no text at all, and four built from it.\<close>

definition emptyMetadata :: fieldMetadata where
  "emptyMetadata = \<lparr>id_attr = [], name = [], type = [], placeholder = [], className = [],
     value_attr = [], autocomplete = [], ariaLabel = [], ariaLabelledBy = [], ariaDescribedBy = [],
     title = [], dataAttributes = [], labelText = [], labelForField = False, required = False,
     pattern = [], minLength = 0, maxLength = 0, min_attr = [], max_attr = [], options = []\<rparr>"

definition emailField :: fieldMetadata where
  "emailField = emptyMetadata\<lparr>id_attr := str ''email'', type := str ''email''\<rparr>"

definition firstNameLabel :: fieldMetadata where
  "firstNameLabel = emptyMetadata\<lparr>labelText := str ''first name'', labelForField := True\<rparr>"

definition emailLabel :: fieldMetadata where
  "emailLabel = emptyMetadata\<lparr>labelText := str ''email'', labelForField := True\<rparr>"

definition startDateLabel :: fieldMetadata where
  "startDateLabel = emptyMetadata\<lparr>labelText := str ''start date'', labelForField := True\<rparr>"

definition cityTitleTel :: fieldMetadata where
  "cityTitleTel = emptyMetadata\<lparr>title := str ''city'', type := str ''tel''\<rparr>"

definition greenhouseEmail :: greenhouseMetadata where
  "greenhouseEmail = \<lparr>id_attr = str ''email'', name = [], type = str ''email'', placeholder = [],
     className = [], value_attr = [], autocomplete = [], ariaLabel = [], ariaLabelledBy = [],
     ariaDescribedBy = [], title = [], dataAttributes = [], labelText = [], labelForField = False,
     required = False, pattern = [], minLength = 0, maxLength = 0, min_attr = [], max_attr = [],
     options = [], greenhouseFieldId = str ''email_field'', greenhouseFieldType = str ''field'',
     isRequired = False\<rparr>"

section \<open>Resume parser: strings and values\<close>

text \<open>
  White space as \<open>String.prototype.trim\<close> and the class \<open>\s\<close> of regular expressions
  read it: tab, line feed, vertical tab, form feed, carriage return, space, no-break
  space, U+1680, U+2000 to U+200A, U+2028, U+2029, U+202F, U+205F, U+3000 and U+FEFF.
\<close>

definition isSpace :: "nat \<Rightarrow> bool" where
  "isSpace c \<longleftrightarrow> c \<in> {9, 10, 11, 12, 13, 32, 160, 5760, 8232, 8233, 8239, 8287, 12288, 65279}
                 \<or> (8192 \<le> c \<and> c \<le> 8202)"

definition trim :: "jstring \<Rightarrow> jstring" where
  "trim s = rev (dropWhile isSpace (rev (dropWhile isSpace s)))"

text \<open>\<open>s.split(sep)\<close> for a separator of one code unit, and \<open>parts.join(sep)\<close>.\<close>

fun consHead :: "nat \<Rightarrow> jstring list \<Rightarrow> jstring list" where
  "consHead x [] = [x] # []"
| "consHead x (t # ts) = (x # t) # ts"

fun splitChar :: "nat \<Rightarrow> jstring \<Rightarrow> jstring list" where
  "splitChar sep [] = [] # []"
| "splitChar sep (x # xs) = (if x = sep then [] # splitChar sep xs else consHead x (splitChar sep xs))"

fun join :: "jstring \<Rightarrow> jstring list \<Rightarrow> jstring" where
  "join sep [] = []"
| "join sep [t] = t"
| "join sep (t # u # ts) = t @ sep @ join sep (u # ts)"

text \<open>
  \<open>s.split(/[...]+/)\<close> for a character class: the pieces between the maximal runs of
  code units of the class. A run at the start or at the end of \<open>s\<close> leaves an empty piece
  there, as the algorithm of \<open>RegExp.prototype[Symbol.split]\<close> does.
\<close>

function splitRuns :: "(nat \<Rightarrow> bool) \<Rightarrow> jstring \<Rightarrow> jstring list" where
  "splitRuns P [] = [] # []"
| "splitRuns P (x # xs) =
     (if P x then [] # splitRuns P (dropWhile P xs) else consHead x (splitRuns P xs))"
  by pat_completeness auto
termination
  by (relation "measure (\<lambda>(P, s). length s)") (auto simp: le_imp_less_Suc length_dropWhile_le)

text \<open>
  The values a caller can hand to the parser in place of a string. Of a number only the
  truthiness is read here, so integers stand for the numbers (0 also for NaN); objects
  are left out. Reading a property of \<open>undefined\<close> or \<open>null\<close>, and calling a string method
  that a boolean or a number does not have, throws a \<open>TypeError\<close>.
\<close>

datatype jsval = JUndefined | JNull | JBool bool | JNum int | JStr jstring

datatype error = TypeError

fun truthy :: "jsval \<Rightarrow> bool" where
  "truthy JUndefined = False"
| "truthy JNull = False"
| "truthy (JBool b) = b"
| "truthy (JNum n) = (n \<noteq> 0)"
| "truthy (JStr s) = (s \<noteq> [])"

text \<open>A property of an object that may be missing: \<open>undefined\<close> when it is.\<close>

fun property :: "jstring option \<Rightarrow> jsval" where
  "property None = JUndefined"
| "property (Some s) = JStr s"

section \<open>Resume parser: skills\<close>

text \<open>
  \<open>ResumeParser.parseSkills\<close> (resumeParser.js, lines 336-358). The class of line 342 is
  comma, bullet U+2022 (twice), vertical bar, middle dot U+00B7, asterisk, plus sign and
  line feed; the class of line 353 is comma, full stop, semicolon and colon, and
  \<open>replace\<close> with the flag \<open>g\<close> removes each of its occurrences.
\<close>

definition isSkillDelimiter :: "nat \<Rightarrow> bool" where
  "isSkillDelimiter c \<longleftrightarrow> c \<in> {44, 8226, 124, 183, 42, 43, 10}"

definition isPunctuation :: "nat \<Rightarrow> bool" where
  "isPunctuation c \<longleftrightarrow> c \<in> {44, 46, 59, 58}"

definition skillsOfString :: "jstring \<Rightarrow> jstring list" where
  "skillsOfString text =
    (let skills = filter (\<lambda>skill. length skill > 0) (map trim (splitRuns isSkillDelimiter text))
     in if length skills < 3
        then (let words = splitRuns isSpace text
              in if length words > 10
                 then map (\<lambda>word. filter (\<lambda>c. \<not> isPunctuation c) (trim word))
                        (filter (\<lambda>word. length word > 2) words)
                 else skills)
        else skills)"

definition parseSkills :: "jsval \<Rightarrow> error + jstring list" where
  "parseSkills text =
    (if \<not> truthy text then Inr []
     else case text of JStr s \<Rightarrow> Inr (skillsOfString s) | _ \<Rightarrow> Inl TypeError)"

text \<open>
  The fallback of \<open>parseSkills\<close> as the specification words it: from each white-space token
  the punctuation at its end is stripped, and nothing else.
\<close>

definition stripTrailingPunctuation :: "jstring \<Rightarrow> jstring" where
  "stripTrailingPunctuation w = rev (dropWhile isPunctuation (rev w))"

definition skillsSpec :: "jstring \<Rightarrow> jstring list" where
  "skillsSpec text =
    (let tokens = filter (\<lambda>t. t \<noteq> []) (map trim (splitRuns isSkillDelimiter text));
         words = splitRuns isSpace text
     in if length tokens < 3 \<and> length words > 10
        then map stripTrailingPunctuation (filter (\<lambda>w. \<not> length w \<le> 2) words)
        else tokens)"

text \<open>The same with the removal the source performs: every comma, full stop, semicolon
  and colon of a token goes, wherever it stands.\<close>

definition skillsAmended :: "jstring \<Rightarrow> jstring list" where
  "skillsAmended text =
    (let tokens = filter (\<lambda>t. t \<noteq> []) (map trim (splitRuns isSkillDelimiter text));
         words = splitRuns isSpace text
     in if length tokens < 3 \<and> length words > 10
        then map (filter (\<lambda>c. c \<notin> {44, 46, 59, 58})) (filter (\<lambda>w. \<not> length w \<le> 2) words)
        else tokens)"

definition nodeSkills :: jstring where
  "nodeSkills = str ''I have used node.js for many years in large projects at work''"


section \<open>Resume parser: sections\<close>

text \<open>
  The three replacements of \<open>extractSections\<close> (lines 52-56): \<open>\r\n\<close> becomes \<open>\n\<close>, then every
  \<open>\r\<close> becomes \<open>\n\<close>, then every run of \<open>\n\<close> becomes one \<open>\n\<close>; 13 is carriage return, 10 is
  line feed.
\<close>

fun replaceCRLF :: "jstring \<Rightarrow> jstring" where
  "replaceCRLF (c # d # s) =
     (if c = 13 \<and> d = 10 then 10 # replaceCRLF s else c # replaceCRLF (d # s))"
| "replaceCRLF s = s"

definition replaceCR :: "jstring \<Rightarrow> jstring" where
  "replaceCR s = map (\<lambda>c. if c = 13 then 10 else c) s"

fun collapseLF :: "jstring \<Rightarrow> jstring" where
  "collapseLF (c # d # s) =
     (if c = 10 \<and> d = 10 then collapseLF (d # s) else c # collapseLF (d # s))"
| "collapseLF s = s"

definition normalizeText :: "jstring \<Rightarrow> jstring" where
  "normalizeText s = trim (collapseLF (replaceCR (replaceCRLF s)))"

text \<open>The table \<open>sectionHeaders\<close> (lines 59-67), in the order of its keys.\<close>

definition sectionHeaders :: "(jstring \<times> jstring list) list" where
  "sectionHeaders =
    [(str ''experience'', map str [''experience'', ''work experience'', ''employment'',
        ''work history'', ''professional experience'']),
     (str ''education'', map str [''education'', ''educational background'',
        ''academic background'', ''academic experience'', ''academic history'']),
     (str ''skills'', map str [''skills'', ''technical skills'', ''core competencies'',
        ''competencies'', ''expertise'', ''proficiencies'']),
     (str ''projects'', map str [''projects'', ''personal projects'', ''professional projects'']),
     (str ''certifications'', map str [''certifications'', ''certificates'', ''licenses'']),
     (str ''languages'', map str [''languages'', ''language proficiencies'']),
     (str ''summary'', map str [''summary'', ''professional summary'', ''career summary'',
        ''career objective'', ''objective''])]"

text \<open>
  \<open>ResumeParser.findSectionBoundaries\<close> (lines 101-127). A boundary is the pair of its
  \<open>type\<close> and its \<open>index\<close>. \<open>String.prototype.toLowerCase\<close> follows the case tables of the
  runtime, which the sources do not hold: it is the parameter \<open>lower\<close> of the parser.
  \<open>headerLoop\<close> is the loop over the entries of the table, left at the first type with a
  matching header; \<open>lineLoop\<close> is the \<open>forEach\<close> over the lines. The comparator of the
  final \<open>sort\<close> orders by index, and the sort is stable.
\<close>

type_synonym boundary = "jstring \<times> nat"

definition headerMatches :: "jstring \<Rightarrow> jstring \<Rightarrow> bool" where
  "headerMatches cleanLine header \<longleftrightarrow> cleanLine = header \<or> cleanLine = header @ str '':''"

fun headerLoop :: "jstring \<Rightarrow> (jstring \<times> jstring list) list \<Rightarrow> jstring option" where
  "headerLoop cleanLine [] = None"
| "headerLoop cleanLine ((sectionType, headers) # rest) =
     (if list_ex (headerMatches cleanLine) headers then Some sectionType
      else headerLoop cleanLine rest)"

fun lineLoop ::
  "(jstring \<Rightarrow> jstring) \<Rightarrow> jstring list \<Rightarrow> nat \<Rightarrow> (jstring \<times> jstring list) list \<Rightarrow>
     boundary list \<Rightarrow> boundary list" where
  "lineLoop lower [] index hs boundaries = boundaries"
| "lineLoop lower (line # rest) index hs boundaries =
     (let cleanLine = lower (trim line)
      in if cleanLine = [] then lineLoop lower rest (index + 1) hs boundaries
         else (case headerLoop cleanLine hs of
                 None \<Rightarrow> lineLoop lower rest (index + 1) hs boundaries
               | Some sectionType \<Rightarrow>
                   lineLoop lower rest (index + 1) hs (boundaries @ [(sectionType, index)])))"

definition findSectionBoundaries ::
  "(jstring \<Rightarrow> jstring) \<Rightarrow> jstring list \<Rightarrow> (jstring \<times> jstring list) list \<Rightarrow> boundary list" where
  "findSectionBoundaries lower lines hs = sort_key snd (lineLoop lower lines 0 hs [])"

text \<open>
  \<open>ResumeParser.extractSections\<close> (lines 50-93). \<open>sections\<close> is an object with string keys:
  a map. \<open>slice\<close> is \<open>Array.prototype.slice\<close> for indices that are not negative.
  \<open>sectionBoundaries[0]?.index || lines.length\<close> is the length also when the first index
  is 0. The loop of lines 82-90 reads the boundary at \<open>i\<close> and the one after it.
\<close>

definition slice :: "'a list \<Rightarrow> nat \<Rightarrow> nat \<Rightarrow> 'a list" where
  "slice xs start end = take (end - start) (drop start xs)"

definition sectionLines :: "jstring \<Rightarrow> jstring list" where
  "sectionLines s = splitChar 10 (normalizeText s)"

definition sectionText :: "jstring list \<Rightarrow> nat \<Rightarrow> boundary list \<Rightarrow> jstring" where
  "sectionText lines index following =
     (let startIndex = index + 1;
          endIndex = (case following of [] \<Rightarrow> length lines | (t, nextIndex) # rest \<Rightarrow> nextIndex)
      in join [10] (slice lines startIndex endIndex))"

fun sectionLoop ::
  "jstring list \<Rightarrow> boundary list \<Rightarrow> (jstring \<rightharpoonup> jstring) \<Rightarrow> (jstring \<rightharpoonup> jstring)" where
  "sectionLoop lines [] sections = sections"
| "sectionLoop lines ((sectionType, index) # following) sections =
     sectionLoop lines following (sections(sectionType \<mapsto> sectionText lines index following))"

definition sectionsOfString :: "(jstring \<Rightarrow> jstring) \<Rightarrow> jstring \<Rightarrow> (jstring \<rightharpoonup> jstring)" where
  "sectionsOfString lower s =
    (let lines = sectionLines s;
         sectionBoundaries = findSectionBoundaries lower lines sectionHeaders;
         headerEnd = (case sectionBoundaries of
                        [] \<Rightarrow> length lines
                      | (t, index) # rest \<Rightarrow> if index = 0 then length lines else index);
         sections = Map.empty(str ''header'' \<mapsto> join [10] (slice lines 0 headerEnd))
     in sectionLoop lines sectionBoundaries sections)"

definition extractSections ::
  "(jstring \<Rightarrow> jstring) \<Rightarrow> jsval \<Rightarrow> error + (jstring \<rightharpoonup> jstring)" where
  "extractSections lower text =
     (case text of JStr s \<Rightarrow> Inr (sectionsOfString lower s) | _ \<Rightarrow> Inl TypeError)"

text \<open>A line is a header line: trimmed and lower-cased it is a header of the table, or a
  header followed by a colon.\<close>

definition isHeaderLine :: "(jstring \<Rightarrow> jstring) \<Rightarrow> jstring \<Rightarrow> bool" where
  "isHeaderLine lower line =
     list_ex (headerMatches (lower (trim line))) (concat (map snd sectionHeaders))"

text \<open>Lower-casing on ASCII letters, where every runtime agrees; and a resume with two
  headers of the section skills and a line that only mentions a header.\<close>

definition asciiLower :: "jstring \<Rightarrow> jstring" where
  "asciiLower s = map (\<lambda>c. if 65 \<le> c \<and> c \<le> 90 then c + 32 else c) s"

definition twoSkills :: jstring where
  "twoSkills = str ''Jo'' @ [10] @ str ''Skills'' @ [10] @ str ''my skills: C'' @ [10] @
     str '' SKILLS: '' @ [13, 10] @ str ''Go''"


section \<open>Resume parser: regular expressions\<close>

text \<open>
  The regular expressions of the parser, as data, and a backtracking matcher that follows
  the order in which the matcher of the language tries the alternatives. A state of the
  matcher is the code unit before the current position (none at the start of the input),
  the rest of the input, and the captures made so far. \<open>matchRe r st\<close> lists the states
  in which \<open>r\<close> can end when started in \<open>st\<close>, the preferred one first: the greedy star
  tries one more round before it stops, the lazy star stops before it tries, and a round
  that consumes nothing is dropped. \<open>Cls\<close> is a class of code units, \<open>Bol\<close> and \<open>Eol\<close>
  are \<open>^\<close> and \<open>$\<close> without the flag \<open>m\<close>, \<open>WordB\<close> is \<open>\b\<close>. No expression of the
  parser has a capture group under a star, so captures are never reset.
\<close>

datatype regex =
    Cls "nat \<Rightarrow> bool"
  | Eps
  | Seq regex regex
  | Alt regex regex
  | Star regex
  | StarLazy regex
  | Opt regex
  | Grp nat regex
  | Bol
  | Eol
  | WordB

type_synonym mstate = "nat option \<times> jstring \<times> (nat \<rightharpoonup> jstring)"

definition isDigit :: "nat \<Rightarrow> bool" where
  "isDigit c \<longleftrightarrow> 48 \<le> c \<and> c \<le> 57"

definition isUpper :: "nat \<Rightarrow> bool" where
  "isUpper c \<longleftrightarrow> 65 \<le> c \<and> c \<le> 90"

definition isLower :: "nat \<Rightarrow> bool" where
  "isLower c \<longleftrightarrow> 97 \<le> c \<and> c \<le> 122"

definition isWordChar :: "nat \<Rightarrow> bool" where
  "isWordChar c \<longleftrightarrow> isDigit c \<or> isUpper c \<or> isLower c \<or> c = 95"

definition atWordBoundary :: "nat option \<Rightarrow> jstring \<Rightarrow> bool" where
  "atWordBoundary prev rest \<longleftrightarrow>
     (case prev of None \<Rightarrow> False | Some c \<Rightarrow> isWordChar c) \<noteq>
     (case rest of [] \<Rightarrow> False | c # cs \<Rightarrow> isWordChar c)"

fun progress :: "mstate \<Rightarrow> mstate \<Rightarrow> bool" where
  "progress (prev, rest, caps) (prev', rest', caps') \<longleftrightarrow> length rest' < length rest"

function matchRe :: "regex \<Rightarrow> mstate \<Rightarrow> mstate list" where
  "matchRe (Cls P) (prev, rest, caps) =
     (case rest of [] \<Rightarrow> [] | c # cs \<Rightarrow> if P c then [(Some c, cs, caps)] else [])"
| "matchRe Eps st = [st]"
| "matchRe (Seq a b) st = concat (map (matchRe b) (matchRe a st))"
| "matchRe (Alt a b) st = matchRe a st @ matchRe b st"
| "matchRe (Star a) st =
     concat (map (\<lambda>st'. if progress st st' then matchRe (Star a) st' else []) (matchRe a st)) @ [st]"
| "matchRe (StarLazy a) st =
     st # concat (map (\<lambda>st'. if progress st st' then matchRe (StarLazy a) st' else []) (matchRe a st))"
| "matchRe (Opt a) st = filter (progress st) (matchRe a st) @ [st]"
| "matchRe (Grp k a) (prev, rest, caps) =
     map (\<lambda>(prev', rest', caps'). (prev', rest', caps'(k \<mapsto> take (length rest - length rest') rest)))
       (matchRe a (prev, rest, caps))"
| "matchRe Bol (prev, rest, caps) = (if prev = None then [(prev, rest, caps)] else [])"
| "matchRe Eol (prev, rest, caps) = (if rest = [] then [(prev, rest, caps)] else [])"
| "matchRe WordB (prev, rest, caps) =
     (if atWordBoundary prev rest then [(prev, rest, caps)] else [])"
  by pat_completeness auto
termination
  by (relation "inv_image (less_than <*lex*> less_than)
        (\<lambda>(r, (prev, rest, caps)). (size r, length rest))")
     auto

declare matchRe.simps(5,6) [simp del]

text \<open>
  \<open>RegExp.prototype.exec\<close> without the flags \<open>g\<close> and \<open>y\<close>, which is what \<open>s.match(r)\<close> runs:
  the first position, from the left, where the expression matches, with the matched text
  and the captures of the preferred match there.
\<close>

fun execFrom :: "regex \<Rightarrow> nat option \<Rightarrow> jstring \<Rightarrow> (jstring \<times> (nat \<rightharpoonup> jstring)) option" where
  "execFrom r prev [] =
     (case matchRe r (prev, [], Map.empty) of
        [] \<Rightarrow> None
      | (prev', rest', caps) # alternatives \<Rightarrow> Some ([], caps))"
| "execFrom r prev (c # cs) =
     (case matchRe r (prev, c # cs, Map.empty) of
        [] \<Rightarrow> execFrom r (Some c) cs
      | (prev', rest', caps) # alternatives \<Rightarrow>
          Some (take (length (c # cs) - length rest') (c # cs), caps))"

definition execRe :: "regex \<Rightarrow> jstring \<Rightarrow> (jstring \<times> (nat \<rightharpoonup> jstring)) option" where
  "execRe r s = execFrom r None s"

text \<open>
  \<open>s.match(r)\<close> for an expression with the flag \<open>g\<close>: the texts of the successive matches
  (the empty list where JavaScript gives \<open>null\<close>). \<open>skip\<close> counts the code units still
  inside the last match; after an empty match the search moves on by one code unit.
\<close>

fun matchAllFrom :: "regex \<Rightarrow> nat option \<Rightarrow> jstring \<Rightarrow> nat \<Rightarrow> jstring list" where
  "matchAllFrom r prev [] skip =
     (if skip = 0 \<and> matchRe r (prev, [], Map.empty) \<noteq> [] then [] # [] else [])"
| "matchAllFrom r prev (c # cs) skip =
     (if skip > 0 then matchAllFrom r (Some c) cs (skip - 1)
      else case matchRe r (prev, c # cs, Map.empty) of
             [] \<Rightarrow> matchAllFrom r (Some c) cs 0
           | (prev', rest', caps) # alternatives \<Rightarrow>
               take (length (c # cs) - length rest') (c # cs) #
               matchAllFrom r (Some c) cs (length (c # cs) - length rest' - 1))"

definition matchAll :: "regex \<Rightarrow> jstring \<Rightarrow> jstring list" where
  "matchAll r s = matchAllFrom r None s 0"

text \<open>
  \<open>s.split(r)\<close> for an expression without capture groups, after
  \<open>RegExp.prototype[Symbol.split]\<close>: \<open>cur\<close> holds, reversed, the piece begun at the end of
  the last separator; an empty match right at that place is passed over.
\<close>

fun splitFrom :: "regex \<Rightarrow> nat option \<Rightarrow> jstring \<Rightarrow> jstring \<Rightarrow> nat \<Rightarrow> jstring list" where
  "splitFrom r prev cur [] skip = [rev cur]"
| "splitFrom r prev cur (c # cs) skip =
     (if skip > 0 then splitFrom r (Some c) cur cs (skip - 1)
      else case matchRe r (prev, c # cs, Map.empty) of
             [] \<Rightarrow> splitFrom r (Some c) (c # cur) cs 0
           | (prev', rest', caps) # alternatives \<Rightarrow>
               (if length rest' = length (c # cs)
                then (if cur = [] then splitFrom r (Some c) [c] cs 0
                      else rev cur # splitFrom r (Some c) [c] cs 0)
                else rev cur # splitFrom r (Some c) [] cs (length (c # cs) - length rest' - 1)))"

definition splitRe :: "regex \<Rightarrow> jstring \<Rightarrow> jstring list" where
  "splitRe r s =
     (if s = [] then (if matchRe r (None, [], Map.empty) = [] then [] # [] else [])
      else splitFrom r None [] s 0)"

text \<open>Building blocks: one code unit, a literal, with the flag \<open>i\<close> a letter in either case
  (an ASCII letter of a pattern matches no code unit beyond ASCII), \<open>r+\<close> and \<open>r{n}\<close>.\<close>

definition foldCase :: "nat \<Rightarrow> nat" where
  "foldCase c = (if isUpper c then c + 32 else c)"

definition chr :: "nat \<Rightarrow> regex" where
  "chr c = Cls (\<lambda>x. x = c)"

definition chrI :: "nat \<Rightarrow> regex" where
  "chrI c = Cls (\<lambda>x. foldCase x = foldCase c)"

fun seq :: "regex list \<Rightarrow> regex" where
  "seq [] = Eps"
| "seq [r] = r"
| "seq (r # rs) = Seq r (seq rs)"

fun alt :: "regex list \<Rightarrow> regex" where
  "alt [] = Cls (\<lambda>x. False)"
| "alt [r] = r"
| "alt (r # rs) = Alt r (alt rs)"

definition lit :: "string \<Rightarrow> regex" where
  "lit s = seq (map chr (str s))"

definition litI :: "string \<Rightarrow> regex" where
  "litI s = seq (map chrI (str s))"

definition oneOrMore :: "regex \<Rightarrow> regex" where
  "oneOrMore r = Seq r (Star r)"

definition rep :: "nat \<Rightarrow> regex \<Rightarrow> regex" where
  "rep n r = seq (replicate n r)"

definition digit :: regex where
  "digit = Cls isDigit"

definition space :: regex where
  "space = Cls isSpace"

definition dot :: regex where
  "dot = Cls (\<lambda>c. c \<notin> {10, 13, 8232, 8233})"

definition isAlnum :: "nat \<Rightarrow> bool" where
  "isAlnum c \<longleftrightarrow> isUpper c \<or> isLower c \<or> isDigit c"

text \<open>The five expressions of \<open>parsePersonalInfo\<close> (lines 149-153).\<close>

definition emailPattern :: regex where
  "emailPattern =
     seq [WordB, oneOrMore (Cls (\<lambda>c. isAlnum c \<or> c \<in> set (str ''._%+-''))), chr 64,
          oneOrMore (Cls (\<lambda>c. isAlnum c \<or> c \<in> set (str ''.-''))), chr 46,
          rep 2 (Cls (\<lambda>c. isUpper c \<or> c = 124 \<or> isLower c)),
          Star (Cls (\<lambda>c. isUpper c \<or> c = 124 \<or> isLower c)), WordB]"

definition phonePattern :: regex where
  "phonePattern =
     seq [Opt (chr 40), rep 3 digit, Opt (chr 41),
          Opt (Cls (\<lambda>c. c \<in> set (str ''-.'') \<or> isSpace c)), rep 3 digit,
          Opt (Cls (\<lambda>c. c \<in> set (str ''-.'') \<or> isSpace c)), rep 4 digit]"

definition linkedinPattern :: regex where
  "linkedinPattern = seq [lit ''linkedin.com/in/'', oneOrMore (Cls (\<lambda>c. isAlnum c \<or> c = 45))]"

definition websitePattern :: regex where
  "websitePattern =
     seq [lit ''http'', Opt (chr 115), lit ''://'', Opt (lit ''www.''),
          oneOrMore (Cls (\<lambda>c. isAlnum c \<or> c = 45)), chr 46,
          oneOrMore (Cls (\<lambda>c. isAlnum c \<or> c \<in> set (str ''-.''))),
          Opt (Grp 1 (seq [chr 47,
            Star (Cls (\<lambda>c. isAlnum c \<or> c \<in> set (str ''-._~:/?#[]@!$&()*+,;='') \<or> c = 39))]))]"

definition addressPattern :: regex where
  "addressPattern =
     seq [oneOrMore digit, oneOrMore space, oneOrMore (Cls (\<lambda>c. isUpper c \<or> isLower c \<or> isSpace c \<or> c = 44)),
          rep 5 digit]"

text \<open>The expressions of \<open>parseExperience\<close> (lines 193, 202, 203) and of \<open>parseEducation\<close>
  (lines 264, 273-275); 8211 and 8212 are the en dash and the em dash.\<close>

definition blankLines :: regex where
  "blankLines = seq [chr 10, Star space, chr 10]"

definition month :: regex where
  "month = alt (map litI [''Jan'', ''Feb'', ''Mar'', ''Apr'', ''May'', ''Jun'', ''Jul'', ''Aug'',
     ''Sep'', ''Oct'', ''Nov'', ''Dec''])"

definition letterI :: regex where
  "letterI = Cls (\<lambda>c. isLower c \<or> isUpper c)"

definition rangeDash :: regex where
  "rangeDash = alt [chr 45, litI ''to'', chr 8211, chr 8212]"

definition titleCompanyPattern :: regex where
  "titleCompanyPattern =
     seq [Bol, Grp 1 (StarLazy dot), Star space, alt [litI ''at'', chr 44, chr 124], Star space,
          Grp 2 (StarLazy dot), Eol]"

definition monthYear :: regex where
  "monthYear = seq [month, Star letterI, Opt (chr 46), oneOrMore space, rep 4 digit]"

definition datePattern :: regex where
  "datePattern =
     seq [Grp 1 monthYear, Star space, rangeDash, Star space,
          Grp 2 (alt [monthYear, litI ''Present'', litI ''Current''])]"

definition degreeSchoolPattern :: regex where
  "degreeSchoolPattern =
     seq [Bol, Grp 1 (StarLazy dot), Star space,
          alt [litI ''at'', chr 44, chr 124, seq [oneOrMore space, litI ''from'']], Star space,
          Grp 2 (StarLazy dot), Eol]"

definition optionalMonth :: regex where
  "optionalMonth = Opt (seq [month, Star letterI, Opt (chr 46), oneOrMore space])"

definition educationDatePattern :: regex where
  "educationDatePattern =
     alt [seq [optionalMonth, rep 4 digit, Star space, rangeDash, Star space, optionalMonth,
               rep 4 digit],
          litI ''Present'', litI ''Current'']"

definition yearPattern :: regex where
  "yearPattern =
     seq [WordB, Grp 1 (alt [seq [lit ''20'', rep 2 digit], seq [lit ''19'', rep 2 digit]]), WordB]"

section \<open>Resume parser: entries and the record\<close>

text \<open>
  The objects the parser returns. The fields of the two kinds of entries carry a suffix
  where their names meet. \<open>startDate\<close> and \<open>endDate\<close> of an experience are the empty
  string or capture groups of \<open>datePattern\<close>, which JavaScript types as string or
  \<open>undefined\<close>; \<open>rawText\<close> is the argument of \<open>parse\<close> as it came.
\<close>

record personalInfo =
  fullName :: jstring
  email :: jstring
  phone :: jstring
  linkedin :: jstring
  website :: jstring
  address :: jstring

record experienceEntry =
  title_ex :: jstring
  company :: jstring
  startDate_ex :: jsval
  endDate_ex :: jsval
  description_ex :: jstring

record educationEntry =
  degree :: jstring
  school :: jstring
  startDate_ed :: jstring
  endDate_ed :: jstring
  description_ed :: jstring

record resumeRecord =
  personalInfo :: personalInfo
  experience :: "experienceEntry list"
  education :: "educationEntry list"
  skills :: "jstring list"
  rawText :: jsval

text \<open>\<open>ResumeParser.extractPattern\<close> (lines 135-138) and \<open>parsePersonalInfo\<close> (lines 146-175).
  \<open>lines[0] || ''\<close> is the first line, or the empty string.\<close>

definition extractPattern :: "jstring \<Rightarrow> regex \<Rightarrow> jstring" where
  "extractPattern s pat = (case execRe pat s of None \<Rightarrow> [] | Some (matched, caps) \<Rightarrow> matched)"

definition parsePersonalInfo :: "jsval \<Rightarrow> jsval \<Rightarrow> error + personalInfo" where
  "parsePersonalInfo fullText headerText =
    (case (fullText, headerText) of
       (JStr full, JStr header) \<Rightarrow>
         Inr \<lparr>fullName = (case splitChar 10 (trim header) of [] \<Rightarrow> [] | first # others \<Rightarrow> first),
              email = extractPattern full emailPattern,
              phone = extractPattern full phonePattern,
              linkedin = extractPattern full linkedinPattern,
              website = extractPattern full websitePattern,
              address = extractPattern full addressPattern\<rparr>
     | _ \<Rightarrow> Inl TypeError)"

text \<open>
  \<open>ResumeParser.parseExperience\<close> (lines 182-251). \<open>experienceOfBlock\<close> is the body of the
  \<open>forEach\<close> for a block that is not blank. Reading \<open>lines[0]\<close> of an empty array and a
  capture group that took no part in the match give \<open>undefined\<close>, whose methods throw.
\<close>

definition experienceOfBlock :: "jstring \<Rightarrow> error + experienceEntry" where
  "experienceOfBlock block =
    (case splitChar 10 (trim block) of
       [] \<Rightarrow> Inl TypeError
     | firstLine # others \<Rightarrow>
        (let titleCompanyMatch = execRe titleCompanyPattern firstLine
         in case (case titleCompanyMatch of
                    None \<Rightarrow> Inr (trim firstLine, [])
                  | Some (matched, caps) \<Rightarrow>
                      (case (caps 1, caps 2) of
                         (Some g1, Some g2) \<Rightarrow> Inr (trim g1, trim g2)
                       | _ \<Rightarrow> Inl TypeError)) of
              Inl e \<Rightarrow> Inl e
            | Inr (titleText, companyText) \<Rightarrow>
               (let dateMatch = (case others of
                                   [] \<Rightarrow> None
                                 | secondLine # further \<Rightarrow> execRe datePattern secondLine);
                    startDate = (case dateMatch of
                                   None \<Rightarrow> JStr []
                                 | Some (matched, caps) \<Rightarrow> property (caps 1));
                    endDate = (case dateMatch of
                                 None \<Rightarrow> JStr []
                               | Some (matched, caps) \<Rightarrow> property (caps 2));
                    descriptionLines =
                      drop ((case titleCompanyMatch of None \<Rightarrow> 0 | Some m \<Rightarrow> 1) +
                            (if truthy startDate then 1 else 0)) (firstLine # others)
                in Inr \<lparr>title_ex = titleText, company = companyText, startDate_ex = startDate,
                        endDate_ex = endDate,
                        description_ex = trim (join [10] descriptionLines)\<rparr>)))"

fun experienceLoop :: "jstring list \<Rightarrow> experienceEntry list \<Rightarrow> error + experienceEntry list" where
  "experienceLoop [] experiences = Inr experiences"
| "experienceLoop (block # rest) experiences =
     (if trim block = [] then experienceLoop rest experiences
      else case experienceOfBlock block of
             Inl e \<Rightarrow> Inl e
           | Inr entry \<Rightarrow> experienceLoop rest (experiences @ [entry]))"

definition parseExperience :: "jsval \<Rightarrow> error + experienceEntry list" where
  "parseExperience text =
    (if \<not> truthy text then Inr []
     else case text of
            JStr s \<Rightarrow> experienceLoop (splitRe blankLines s) []
          | _ \<Rightarrow> Inl TypeError)"

text \<open>\<open>ResumeParser.parseEducation\<close> (lines 258-329). \<open>years\<close> is \<open>null\<close> or holds at least
  one year.\<close>

definition potentialDegrees :: "jstring list" where
  "potentialDegrees = map str [''bachelor'', ''master'', ''bs'', ''ba'', ''ms'', ''ma'', ''phd'',
     ''doctorate'']"

definition educationOfBlock :: "(jstring \<Rightarrow> jstring) \<Rightarrow> jstring \<Rightarrow> error + educationEntry" where
  "educationOfBlock lower block =
    (case splitChar 10 (trim block) of
       [] \<Rightarrow> Inl TypeError
     | firstLine # others \<Rightarrow>
        (case (case execRe degreeSchoolPattern firstLine of
                 None \<Rightarrow>
                   (if list_ex (\<lambda>d. includesStr (lower firstLine) d) potentialDegrees
                    then Inr (firstLine, []) else Inr ([], firstLine))
               | Some (matched, caps) \<Rightarrow>
                   (case (caps 1, caps 2) of
                      (Some g1, Some g2) \<Rightarrow> Inr (trim g1, trim g2)
                    | _ \<Rightarrow> Inl TypeError)) of
           Inl e \<Rightarrow> Inl e
         | Inr (degreeText, schoolText) \<Rightarrow>
            (let allText = join [32] (firstLine # others);
                 years = (case execRe educationDatePattern allText of
                            None \<Rightarrow> []
                          | Some (dateRange, caps) \<Rightarrow> matchAll yearPattern dateRange);
                 startDate = (case years of [] \<Rightarrow> [] | y0 # ys \<Rightarrow> y0);
                 endDate = (case years of
                              [] \<Rightarrow> []
                            | [y0] \<Rightarrow> str ''Present''
                            | y0 # y1 # ys \<Rightarrow> y1)
             in Inr \<lparr>degree = degreeText, school = schoolText, startDate_ed = startDate,
                     endDate_ed = endDate,
                     description_ed = trim (join [10] others)\<rparr>)))"

fun educationLoop ::
  "(jstring \<Rightarrow> jstring) \<Rightarrow> jstring list \<Rightarrow> educationEntry list \<Rightarrow> error + educationEntry list" where
  "educationLoop lower [] entries = Inr entries"
| "educationLoop lower (block # rest) entries =
     (if trim block = [] then educationLoop lower rest entries
      else case educationOfBlock lower block of
             Inl e \<Rightarrow> Inl e
           | Inr entry \<Rightarrow> educationLoop lower rest (entries @ [entry]))"

definition parseEducation :: "(jstring \<Rightarrow> jstring) \<Rightarrow> jsval \<Rightarrow> error + educationEntry list" where
  "parseEducation lower text =
    (if \<not> truthy text then Inr []
     else case text of
            JStr s \<Rightarrow> educationLoop lower (splitRe blankLines s) []
          | _ \<Rightarrow> Inl TypeError)"

text \<open>
  \<open>ResumeParser.parse\<close> (lines 15-43). The \<open>catch\<close> logs the error and throws it again, so
  an error of any step is the result of \<open>parse\<close>.
\<close>

definition parse :: "(jstring \<Rightarrow> jstring) \<Rightarrow> jsval \<Rightarrow> error + resumeRecord" where
  "parse lower text =
    (case extractSections lower text of
       Inl e \<Rightarrow> Inl e
     | Inr sections \<Rightarrow>
    (case parsePersonalInfo text (property (sections (str ''header''))) of
       Inl e \<Rightarrow> Inl e
     | Inr info \<Rightarrow>
    (case parseExperience (property (sections (str ''experience''))) of
       Inl e \<Rightarrow> Inl e
     | Inr experiences \<Rightarrow>
    (case parseEducation lower (property (sections (str ''education''))) of
       Inl e \<Rightarrow> Inl e
     | Inr educations \<Rightarrow>
    (case parseSkills (property (sections (str ''skills''))) of
       Inl e \<Rightarrow> Inl e
     | Inr skillList \<Rightarrow>
         Inr \<lparr>personalInfo = info, experience = experiences, education = educations,
              skills = skillList, rawText = text\<rparr>)))))"

text \<open>The value is a string.\<close>

definition isString :: "jsval \<Rightarrow> bool" where
  "isString v = (case v of JStr s \<Rightarrow> True | _ \<Rightarrow> False)"

text \<open>The groups an expression sets in every match.\<close>

fun groupsSet :: "regex \<Rightarrow> nat set" where
  "groupsSet (Grp k r) = insert k (groupsSet r)"
| "groupsSet (Seq a b) = groupsSet a \<union> groupsSet b"
| "groupsSet (Alt a b) = groupsSet a \<inter> groupsSet b"
| "groupsSet r = {}"

section \<open>Form detector: properties\<close>

lemma startsWith_iff: "startsWith s p \<longleftrightarrow> (\<exists>b. s = p @ b)"
  by (induction s p rule: startsWith.induct) auto

lemma includesStr_iff: "includesStr s p \<longleftrightarrow> (\<exists>a b. s = a @ p @ b)"
proof (induction s)
  case Nil
  then show ?case by simp
next
  case (Cons c cs)
  show ?case
  proof
    assume "includesStr (c # cs) p"
    then consider "startsWith (c # cs) p" | "includesStr cs p" by auto
    then show "\<exists>a b. c # cs = a @ p @ b"
    proof cases
      case 1
      then obtain b where "c # cs = p @ b" by (auto simp: startsWith_iff)
      then have "c # cs = [] @ p @ b" by simp
      then show ?thesis by blast
    next
      case 2
      then obtain a b where "cs = a @ p @ b" using Cons.IH by blast
      then have "c # cs = (c # a) @ p @ b" by simp
      then show ?thesis by blast
    qed
  next
    assume "\<exists>a b. c # cs = a @ p @ b"
    then obtain a b where ab: "c # cs = a @ p @ b" by blast
    show "includesStr (c # cs) p"
    proof (cases a)
      case Nil
      with ab have "startsWith (c # cs) p" by (auto simp: startsWith_iff)
      then show ?thesis by simp
    next
      case (Cons x a')
      with ab have "cs = a' @ p @ b" by simp
      then have "includesStr cs p" using Cons.IH by blast
      then show ?thesis by simp
    qed
  qed
qed

lemma includesStr_refl: "includesStr p p"
proof -
  have "p = [] @ p @ []" by simp
  then show ?thesis unfolding includesStr_iff by blast
qed

lemma dataAttributeLoop_sum:
  "dataAttributeLoop das p score =
     score + length (filter (\<lambda>(key, val). includesStr key p \<or> includesStr val p) das)"
  by (induction das p score rule: dataAttributeLoop.induct) auto

lemma patternStep_sum: "patternStep metadata p score = score + phraseWeight metadata p"
  by (simp add: patternStep_def phraseWeight_def dataAttributeLoop_sum Let_def)

lemma patternLoop_sum:
  "patternLoop metadata ps score = score + sum_list (map (phraseWeight metadata) ps)"
  by (induction ps arbitrary: score) (simp_all add: patternStep_sum)

text \<open>
  Claim C4. For every metadata record and every list of trigger phrases, the match score
  computed by the loops of \<open>calculateMatchScore\<close> is the sum, over all the phrases, of
  5 when the label text contains the phrase (and 2 more when \<open>labelForField\<close> holds),
  3 each when the id, the name or the aria-label contains it, 2 for the placeholder,
  1 for the title, and 1 for every data-attribute whose key or value contains it. No
  phrase ends the loop early.
\<close>
theorem calculateMatchScore_is_weighted_sum:
  "calculateMatchScore metadata ps = matchScoreSpec metadata ps"
  by (simp add: calculateMatchScore_def matchScoreSpec_def patternLoop_sum)

text \<open>Witness for C4: the label "email", bound by for/id, against two phrases it contains.\<close>

theorem calculateMatchScore_is_weighted_sum_witness:
  "calculateMatchScore emailLabel [str ''email'', str ''mail''] = 14"
proof -
  have "matchScoreSpec emailLabel [str ''email'', str ''mail''] = 14"
    by (simp add: matchScoreSpec_def phraseWeight_def emailLabel_def emptyMetadata_def str_def)
  with calculateMatchScore_is_weighted_sum [of emailLabel "[str ''email'', str ''mail'']"]
  show ?thesis by simp
qed

lemma subcategoryLoop_fold:
  "subcategoryLoop metadata cat subcats b =
     fold (entryStep metadata) (map (\<lambda>(subcat, ps). (cat, subcat, ps)) subcats) b"
  by (induction metadata cat subcats b rule: subcategoryLoop.induct)
     (simp_all add: Let_def)

lemma categoryLoop_fold:
  "categoryLoop metadata tbl b =
     fold (entryStep metadata)
       (concat (map (\<lambda>(cat, subcats). map (\<lambda>(subcat, ps). (cat, subcat, ps)) subcats) tbl)) b"
  by (induction metadata tbl b rule: categoryLoop.induct) (simp_all add: subcategoryLoop_fold)

lemma bestPattern_fold:
  "bestPattern metadata = fold (entryStep metadata) catalogEntries (str ''unknown'', str ''unknown'', 0)"
  by (simp add: bestPattern_def catalogEntries_def categoryLoop_fold)

lemma fold_entryStep_upper:
  "fold (entryStep metadata) es (c, s, h) = (c', s', h') \<Longrightarrow>
     h \<le> h' \<and> (\<forall>(cat, subcat, ps) \<in> set es. calculateMatchScore metadata ps \<le> h')"
proof (induction es arbitrary: c s h)
  case Nil
  then show ?case by simp
next
  case (Cons e es)
  obtain cat subcat ps where e: "e = (cat, subcat, ps)" by (cases e) auto
  show ?case
  proof (cases "calculateMatchScore metadata ps > h")
    case True
    with Cons.prems e have "fold (entryStep metadata) es (cat, subcat, calculateMatchScore metadata ps) = (c', s', h')"
      by simp
    from Cons.IH [OF this] True e show ?thesis by auto
  next
    case False
    with Cons.prems e have "fold (entryStep metadata) es (c, s, h) = (c', s', h')"
      by simp
    from Cons.IH [OF this] False e show ?thesis by auto
  qed
qed

lemma fold_entryStep_origin:
  "fold (entryStep metadata) es (c, s, h) = (c', s', h') \<Longrightarrow>
     (c', s', h') = (c, s, h) \<or>
     (h < h' \<and> (\<exists>ps. (c', s', ps) \<in> set es \<and> h' = calculateMatchScore metadata ps))"
proof (induction es arbitrary: c s h)
  case Nil
  then show ?case by simp
next
  case (Cons e es)
  obtain cat subcat ps where e: "e = (cat, subcat, ps)" by (cases e) auto
  show ?case
  proof (cases "calculateMatchScore metadata ps > h")
    case True
    with Cons.prems e have "fold (entryStep metadata) es (cat, subcat, calculateMatchScore metadata ps) = (c', s', h')"
      by simp
    from Cons.IH [OF this] True e show ?thesis by auto
  next
    case False
    with Cons.prems e have "fold (entryStep metadata) es (c, s, h) = (c', s', h')"
      by simp
    from Cons.IH [OF this] False e show ?thesis by auto
  qed
qed

lemma if_boost: "(if b then c + k else c) = c + (if b then k else (0::rat))"
  by simp

lemma calculateConfidence_sum:
  "calculateConfidence metadata category subcategory =
     (if category = str ''unknown'' then 0
      else min (1 / 2 + sum_list (confidenceBoosts metadata subcategory)) 1)"
  unfolding calculateConfidence_def confidenceBoosts_def if_boost Let_def
  by (simp add: add.assoc split del: if_split cong: if_cong)

lemma confidenceBoosts_nonneg: "\<forall>b \<in> set (confidenceBoosts metadata subcategory). 0 \<le> b"
  unfolding confidenceBoosts_def
  apply (simp split del: if_split)
  apply (intro conjI)
  apply simp_all
  done

lemma confidenceBoosts_sum_nonneg: "0 \<le> sum_list (confidenceBoosts metadata subcategory)"
  using confidenceBoosts_nonneg by (metis sum_list_nonneg)

lemma confidenceBoosts_label:
  "labelForField metadata \<Longrightarrow> 3 / 10 \<le> sum_list (confidenceBoosts metadata subcategory)"
proof -
  assume l: "labelForField metadata"
  have "confidenceBoosts metadata subcategory = 3 / 10 # tl (confidenceBoosts metadata subcategory)"
    using l unfolding confidenceBoosts_def by (simp split del: if_split)
  moreover have "0 \<le> sum_list (tl (confidenceBoosts metadata subcategory))"
    using confidenceBoosts_nonneg [of metadata subcategory]
    by (metis list.sel(2) list.set_sel(2) sum_list_nonneg)
  ultimately show ?thesis
    by (metis add.commute le_add_same_cancel2 sum_list.Cons)
qed

lemma calculateConfidence_unknown [simp]:
  "calculateConfidence metadata (str ''unknown'') subcategory = 0"
  by (simp add: calculateConfidence_def)

lemma calculateConfidence_lower:
  "category \<noteq> str ''unknown'' \<Longrightarrow> 1 / 2 \<le> calculateConfidence metadata category subcategory"
  using confidenceBoosts_sum_nonneg [of metadata subcategory]
  by (simp add: calculateConfidence_sum)

lemma calculateConfidence_upper: "calculateConfidence metadata category subcategory \<le> 1"
  by (simp add: calculateConfidence_sum)

lemma calculateConfidence_nonneg: "0 \<le> calculateConfidence metadata category subcategory"
proof (cases "category = str ''unknown''")
  case True
  then show ?thesis by simp
next
  case False
  from calculateConfidence_lower [OF this, of metadata subcategory] show ?thesis by simp
qed

lemma calculateConfidence_label:
  "category \<noteq> str ''unknown'' \<Longrightarrow> labelForField metadata \<Longrightarrow>
     4 / 5 \<le> calculateConfidence metadata category subcategory"
  using confidenceBoosts_label [of metadata subcategory]
  by (simp add: calculateConfidence_sum)

text \<open>
  Claim C2. For every metadata record and every category and subcategory, the confidence
  of the classifier and the confidence of the Greenhouse adapter both lie between 0 and 1:
  no combination of boosts exceeds 1, and neither value is negative.
\<close>
theorem confidence_in_unit_interval:
  "0 \<le> calculateConfidence metadata category subcategory \<and>
   calculateConfidence metadata category subcategory \<le> 1 \<and>
   0 \<le> calculateGreenhouseConfidence gh category subcategory \<and>
   calculateGreenhouseConfidence gh category subcategory \<le> 1"
proof -
  have a: "0 \<le> calculateConfidence gh category subcategory"
    by (rule calculateConfidence_nonneg)
  have b: "calculateConfidence gh category subcategory \<le> 1"
    by (rule calculateConfidence_upper)
  have "0 \<le> calculateGreenhouseConfidence gh category subcategory"
    using a by (simp add: calculateGreenhouseConfidence_def Let_def)
  moreover have "calculateGreenhouseConfidence gh category subcategory \<le> 1"
    using b by (simp add: calculateGreenhouseConfidence_def Let_def)
  ultimately show ?thesis
    using calculateConfidence_nonneg calculateConfidence_upper by blast
qed

text \<open>Witness for C2: the email control, generic and under a Greenhouse wrapper.\<close>

theorem confidence_in_unit_interval_witness:
  "0 \<le> calculateConfidence emailField (str ''personal'') (str ''email'') \<and>
   calculateConfidence emailField (str ''personal'') (str ''email'') \<le> 1 \<and>
   0 \<le> calculateGreenhouseConfidence greenhouseEmail (str ''personal'') (str ''email'') \<and>
   calculateGreenhouseConfidence greenhouseEmail (str ''personal'') (str ''email'') \<le> 1"
  using confidence_in_unit_interval [of emailField "str ''personal''" "str ''email''" greenhouseEmail]
  by simp

lemmas eval_defs = bestPattern_def patterns_def str_def calculateMatchScore_def patternStep_def
  emptyMetadata_def

lemma catalog_nonempty: "list_all (\<lambda>(c, s, ps). [] \<notin> set ps) catalogEntries"
  by (simp add: catalogEntries_def patterns_def str_def)

lemma catalog_known: "list_all (\<lambda>(c, s, ps). c \<noteq> str ''unknown'') catalogEntries"
  by (simp add: catalogEntries_def patterns_def str_def)

lemma catalog_lookup: "list_all (\<lambda>(c, s, ps). triggerPhrases c s = ps) catalogEntries"
  by (simp add: catalogEntries_def triggerPhrases_def patterns_def str_def)

lemma triggerPhrases_in_catalog:
  assumes "triggerPhrases cat subcat \<noteq> []"
  shows "(cat, subcat, triggerPhrases cat subcat) \<in> set catalogEntries"
proof -
  from assms obtain subcats where 1: "map_of patterns cat = Some subcats"
    by (auto simp: triggerPhrases_def split: option.splits)
  with assms obtain ps where 2: "map_of subcats subcat = Some ps"
    by (auto simp: triggerPhrases_def split: option.splits)
  from 1 2 have 3: "triggerPhrases cat subcat = ps" by (simp add: triggerPhrases_def)
  from 1 have "(cat, subcats) \<in> set patterns" by (rule map_of_SomeD)
  moreover from 2 have "(subcat, ps) \<in> set subcats" by (rule map_of_SomeD)
  ultimately have "(cat, subcat, ps) \<in> set catalogEntries"
    unfolding catalogEntries_def by force
  with 3 show ?thesis by simp
qed

lemma bestPattern_emailField: "bestPattern emailField = (str ''personal'', str ''email'', 3)"
  by (simp add: eval_defs emailField_def)

lemma bestPattern_firstNameLabel: "bestPattern firstNameLabel = (str ''personal'', str ''name'', 7)"
  by (simp add: eval_defs firstNameLabel_def)

lemma bestPattern_emailLabel: "bestPattern emailLabel = (str ''personal'', str ''email'', 7)"
  by (simp add: eval_defs emailLabel_def)

lemma bestPattern_cityTitleTel: "bestPattern cityTitleTel = (str ''personal'', str ''city'', 1)"
  by (simp add: eval_defs cityTitleTel_def)

lemma strictlyBest_emailLabel: "strictlyBest emailLabel (str ''personal'') (str ''email'')"
  by (simp add: strictlyBest_def catalogEntries_def triggerPhrases_def eval_defs emailLabel_def)

lemma phraseWeight_no_text:
  assumes "id_attr m = []" "name m = []" "placeholder m = []" "labelText m = []"
    "ariaLabel m = []" "title m = []" "dataAttributes m = []" "p \<noteq> []"
  shows "phraseWeight m p = 0"
  using assms by (simp add: phraseWeight_def)

lemma calculateMatchScore_no_text:
  assumes "id_attr m = []" "name m = []" "placeholder m = []" "labelText m = []"
    "ariaLabel m = []" "title m = []" "dataAttributes m = []" "[] \<notin> set ps"
  shows "calculateMatchScore m ps = 0"
proof -
  have "\<forall>p \<in> set ps. phraseWeight m p = 0"
    using assms phraseWeight_no_text [of m] by metis
  then show ?thesis
    by (simp add: calculateMatchScore_def patternLoop_sum)
qed

lemma fold_entryStep_zero:
  "\<forall>(cat, subcat, ps) \<in> set es. calculateMatchScore m ps = 0 \<Longrightarrow>
     fold (entryStep m) es (c, s, h) = (c, s, h)"
  by (induction es) auto

lemma bestPattern_no_text:
  assumes "id_attr m = []" "name m = []" "placeholder m = []" "labelText m = []"
    "ariaLabel m = []" "title m = []" "dataAttributes m = []"
  shows "bestPattern m = (str ''unknown'', str ''unknown'', 0)"
proof -
  have "\<forall>(cat, subcat, ps) \<in> set catalogEntries. calculateMatchScore m ps = 0"
    using catalog_nonempty calculateMatchScore_no_text [OF assms]
    by (auto simp: list_all_iff)
  then show ?thesis
    unfolding bestPattern_fold by (rule fold_entryStep_zero)
qed

lemma str_nonempty: "str ''email'' \<noteq> []" "str ''tel'' \<noteq> []" "str ''address-line1'' \<noteq> []"
  "str ''address-level2'' \<noteq> []" "str ''address-level1'' \<noteq> []" "str ''postal-code'' \<noteq> []"
  "str ''country'' \<noteq> []"
  by (simp_all add: str_def)

text \<open>
  Claim C1. A metadata record whose id, name, type, placeholder, label text, aria-label,
  title and autocomplete are empty and which has no data-attributes is classified
  unknown/unknown with confidence exactly 0. Classification is a total function of the
  metadata: no step of \<open>categorizeField\<close> or \<open>calculateConfidence\<close> can throw on a
  record of this type, so the model has no error branch.
\<close>
theorem no_text_gives_unknown:
  assumes "id_attr m = []" "name m = []" "type m = []" "placeholder m = []" "labelText m = []"
    "ariaLabel m = []" "title m = []" "autocomplete m = []" "dataAttributes m = []"
  shows "classify m = (str ''unknown'', str ''unknown'', 0)"
proof -
  have "bestPattern m = (str ''unknown'', str ''unknown'', 0)"
    using assms by (intro bestPattern_no_text)
  moreover have "fieldTypeHeuristics m (str ''unknown'', str ''unknown'') = (str ''unknown'', str ''unknown'')"
    using assms(3,8) str_nonempty [symmetric] by (simp add: fieldTypeHeuristics_def)
  ultimately have "categorizeField m = (str ''unknown'', str ''unknown'')"
    by (simp add: categorizeField_def)
  then show ?thesis by (simp add: classify_def)
qed

text \<open>Witness for C1: the control with no text at all.\<close>
theorem no_text_gives_unknown_witness:
  "classify emptyMetadata = (str ''unknown'', str ''unknown'', 0)"
  by (rule no_text_gives_unknown) (simp_all add: emptyMetadata_def)

lemma bestPattern_cases:
  assumes "bestPattern m = (c, s, h)"
  shows "(c = str ''unknown'' \<and> s = str ''unknown'' \<and> h = 0) \<or>
         (0 < h \<and> c \<noteq> str ''unknown'' \<and> (c, s, triggerPhrases c s) \<in> set catalogEntries \<and>
          h = calculateMatchScore m (triggerPhrases c s))"
proof -
  from assms have f: "fold (entryStep m) catalogEntries (str ''unknown'', str ''unknown'', 0) = (c, s, h)"
    by (simp add: bestPattern_fold)
  from fold_entryStep_origin [OF f] show ?thesis
  proof
    assume "(c, s, h) = (str ''unknown'', str ''unknown'', 0)"
    then show ?thesis by simp
  next
    assume "0 < h \<and> (\<exists>ps. (c, s, ps) \<in> set catalogEntries \<and> h = calculateMatchScore m ps)"
    then obtain ps where h: "0 < h" and ps: "(c, s, ps) \<in> set catalogEntries"
      and hs: "h = calculateMatchScore m ps" by blast
    from ps catalog_known have "c \<noteq> str ''unknown''" by (auto simp: list_all_iff)
    moreover from ps catalog_lookup have "triggerPhrases c s = ps" by (auto simp: list_all_iff)
    ultimately show ?thesis using h ps hs by simp
  qed
qed

lemma bestPattern_upper:
  assumes "bestPattern m = (c, s, h)" "(cat, subcat, ps) \<in> set catalogEntries"
  shows "calculateMatchScore m ps \<le> h"
proof -
  from assms(1) have f: "fold (entryStep m) catalogEntries (str ''unknown'', str ''unknown'', 0) = (c, s, h)"
    by (simp add: bestPattern_fold)
  from fold_entryStep_upper [OF f] assms(2) show ?thesis by auto
qed

text \<open>
  Claim C5. Let \<open>(c, s, h)\<close> be the best pattern match. No category matched exactly when
  \<open>h = 0\<close>, so the guard of the fallback stage holds exactly when \<open>h < 3\<close>. With
  \<open>h \<ge> 3\<close> the pattern-derived pair is returned unchanged; with \<open>h < 3\<close> the type and
  autocomplete rules decide: type email gives personal/email, autocomplete
  address-level2 (the type being neither email nor tel) gives personal/city.
\<close>
theorem fallback_iff_inconclusive:
  assumes "bestPattern m = (c, s, h)"
  shows "(c = str ''unknown'' \<longleftrightarrow> h = 0) \<and>
         (3 \<le> h \<longrightarrow> categorizeField m = (c, s)) \<and>
         (h < 3 \<longrightarrow> categorizeField m = fieldTypeHeuristics m (c, s)) \<and>
         (h < 3 \<and> type m = str ''email'' \<longrightarrow> categorizeField m = (str ''personal'', str ''email'')) \<and>
         (h < 3 \<and> type m \<noteq> str ''email'' \<and> type m \<noteq> str ''tel'' \<and>
            autocomplete m = str ''address-level2'' \<longrightarrow>
            categorizeField m = (str ''personal'', str ''city''))"
proof -
  from bestPattern_cases [OF assms] have u: "c = str ''unknown'' \<longleftrightarrow> h = 0" by auto
  have ne: "str ''address-level2'' \<noteq> str ''address-line1''" by (simp add: str_def)
  from u assms have 1: "3 \<le> h \<longrightarrow> categorizeField m = (c, s)"
    by (auto simp: categorizeField_def)
  from assms have 2: "h < 3 \<longrightarrow> categorizeField m = fieldTypeHeuristics m (c, s)"
    by (simp add: categorizeField_def)
  from 2 have 3: "h < 3 \<and> type m = str ''email'' \<longrightarrow> categorizeField m = (str ''personal'', str ''email'')"
    by (simp add: fieldTypeHeuristics_def)
  from 2 ne have 4: "h < 3 \<and> type m \<noteq> str ''email'' \<and> type m \<noteq> str ''tel'' \<and>
            autocomplete m = str ''address-level2'' \<longrightarrow>
            categorizeField m = (str ''personal'', str ''city'')"
    by (simp add: fieldTypeHeuristics_def)
  from u 1 2 3 4 show ?thesis by blast
qed

text \<open>Witness for C5: a control whose best score is 3, where the pattern result stays, and
  one whose best score is 1, where the type rule replaces personal/city by personal/phone.\<close>
theorem fallback_iff_inconclusive_witness:
  "bestPattern emailField = (str ''personal'', str ''email'', 3) \<and>
   categorizeField emailField = (str ''personal'', str ''email'') \<and>
   bestPattern cityTitleTel = (str ''personal'', str ''city'', 1) \<and>
   categorizeField cityTitleTel = fieldTypeHeuristics cityTitleTel (str ''personal'', str ''city'') \<and>
   categorizeField cityTitleTel = (str ''personal'', str ''phone'')"
proof -
  have t: "fieldTypeHeuristics cityTitleTel (str ''personal'', str ''city'') = (str ''personal'', str ''phone'')"
    by (simp add: fieldTypeHeuristics_def cityTitleTel_def emptyMetadata_def str_def)
  from fallback_iff_inconclusive [OF bestPattern_emailField]
    fallback_iff_inconclusive [OF bestPattern_cityTitleTel] t
  show ?thesis
    using bestPattern_emailField bestPattern_cityTitleTel by simp
qed

lemma phraseWeight_label:
  "labelForField m \<Longrightarrow> 7 \<le> phraseWeight m (labelText m)"
  by (simp add: phraseWeight_def includesStr_refl)

lemma calculateMatchScore_label:
  assumes "labelForField m" "labelText m \<in> set ps"
  shows "7 \<le> calculateMatchScore m ps"
proof -
  from assms(2) have "phraseWeight m (labelText m) \<in> set (map (phraseWeight m) ps)" by simp
  then have "phraseWeight m (labelText m) \<le> sum_list (map (phraseWeight m) ps)"
    by (intro member_le_sum_list) simp_all
  with phraseWeight_label [OF assms(1)] show ?thesis
    by (simp add: calculateMatchScore_def patternLoop_sum)
qed

lemma strictlyBest_unique:
  assumes "strictlyBest m cat subcat" "(c, s, ps) \<in> set catalogEntries"
    "calculateMatchScore m (triggerPhrases cat subcat) \<le> calculateMatchScore m ps"
  shows "(c, s) = (cat, subcat)"
proof -
  from assms(1,2) have "(c, s) = (cat, subcat) \<or>
      calculateMatchScore m ps < calculateMatchScore m (triggerPhrases cat subcat)"
    by (auto simp: strictlyBest_def list_all_iff)
  with assms(3) show ?thesis by auto
qed

lemma fold_entryStep_keep:
  "\<forall>(cat, subcat, ps) \<in> set es. calculateMatchScore m ps \<le> h \<Longrightarrow>
     fold (entryStep m) es (c, s, h) = (c, s, h)"
  by (induction es) auto

lemma firstBestIn_fold:
  "firstBestIn m p h0 es \<Longrightarrow> \<exists>h. fold (entryStep m) es (c0, s0, h0) = (fst p, snd p, h)"
proof (induction es arbitrary: c0 s0 h0)
  case Nil
  then show ?case by simp
next
  case (Cons e es)
  obtain c s ps where e: "e = (c, s, ps)" by (cases e) auto
  show ?case
  proof (cases "(c, s) = p")
    case True
    with Cons.prems e have lt: "h0 < calculateMatchScore m ps"
      and le: "\<forall>(c', s', ps') \<in> set es. calculateMatchScore m ps' \<le> calculateMatchScore m ps"
      by (auto simp: list_all_iff)
    from lt e have "fold (entryStep m) (e # es) (c0, s0, h0) =
        fold (entryStep m) es (c, s, calculateMatchScore m ps)" by simp
    also have "\<dots> = (c, s, calculateMatchScore m ps)"
      using le by (rule fold_entryStep_keep)
    finally show ?thesis using True by auto
  next
    case False
    with Cons.prems e have f: "firstBestIn m p (max h0 (calculateMatchScore m ps)) es" by simp
    show ?thesis
    proof (cases "h0 < calculateMatchScore m ps")
      case True
      then have "max h0 (calculateMatchScore m ps) = calculateMatchScore m ps" by simp
      with f Cons.IH [of "calculateMatchScore m ps" c s] True e show ?thesis by simp
    next
      case False
      then have "max h0 (calculateMatchScore m ps) = h0" by simp
      with f Cons.IH [of h0 c0 s0] False e show ?thesis by simp
    qed
  qed
qed

lemma fold_firstBestIn:
  "distinct (map (\<lambda>(c, s, ps). (c, s)) es) \<Longrightarrow> (c0, s0) \<noteq> p \<Longrightarrow>
     fold (entryStep m) es (c0, s0, h0) = (fst p, snd p, h) \<Longrightarrow> firstBestIn m p h0 es"
proof (induction es arbitrary: c0 s0 h0)
  case Nil
  then show ?case by (cases p) simp
next
  case (Cons e es)
  obtain c s ps where e: "e = (c, s, ps)" by (cases e) auto
  from Cons.prems(1) e have d: "distinct (map (\<lambda>(c, s, ps). (c, s)) es)"
    and ni: "(c, s) \<notin> (\<lambda>(c, s, ps). (c, s)) ` set es" by simp_all
  from ni have notin: "\<forall>(c', s', ps') \<in> set es. (c', s') \<noteq> (c, s)" by force
  show ?case
  proof (cases "(c, s) = p")
    case True
    have lt: "h0 < calculateMatchScore m ps"
    proof (rule ccontr)
      assume "\<not> h0 < calculateMatchScore m ps"
      with Cons.prems(3) e have f: "fold (entryStep m) es (c0, s0, h0) = (fst p, snd p, h)" by simp
      from fold_entryStep_origin [OF f] Cons.prems(2) True notin show False
        by (cases p) auto
    qed
    with Cons.prems(3) e
    have f: "fold (entryStep m) es (c, s, calculateMatchScore m ps) = (fst p, snd p, h)" by simp
    from fold_entryStep_origin [OF f] True notin have "h = calculateMatchScore m ps"
      by (cases p) auto
    with fold_entryStep_upper [OF f]
    have "\<forall>(c', s', ps') \<in> set es. calculateMatchScore m ps' \<le> calculateMatchScore m ps" by simp
    with lt True e show ?thesis by (auto simp: list_all_iff)
  next
    case False
    show ?thesis
    proof (cases "h0 < calculateMatchScore m ps")
      case True
      with Cons.prems(3) e
      have f: "fold (entryStep m) es (c, s, calculateMatchScore m ps) = (fst p, snd p, h)" by simp
      from Cons.IH [OF d False f] True \<open>(c, s) \<noteq> p\<close> e show ?thesis by (simp add: max_def)
    next
      case nlt: False
      with Cons.prems(3) e have f: "fold (entryStep m) es (c0, s0, h0) = (fst p, snd p, h)" by simp
      from Cons.IH [OF d Cons.prems(2) f] nlt False e show ?thesis by (simp add: max_def)
    qed
  qed
qed

lemma catalog_distinct: "distinct (map (\<lambda>(c, s, ps). (c, s)) catalogEntries)"
  by (simp add: catalogEntries_def patterns_def str_def)

lemma bestPattern_firstBest:
  assumes "bestPattern m = (c, s, h)" "cat \<noteq> str ''unknown''"
  shows "(c, s) = (cat, subcat) \<longleftrightarrow> firstBest m cat subcat"
proof
  assume "(c, s) = (cat, subcat)"
  with assms(1) have "fold (entryStep m) catalogEntries (str ''unknown'', str ''unknown'', 0) =
      (fst (cat, subcat), snd (cat, subcat), h)" by (simp add: bestPattern_fold)
  moreover from assms(2) have "(str ''unknown'', str ''unknown'') \<noteq> (cat, subcat)" by auto
  ultimately show "firstBest m cat subcat"
    unfolding firstBest_def using catalog_distinct by (intro fold_firstBestIn)
next
  assume "firstBest m cat subcat"
  then have "\<exists>h'. fold (entryStep m) catalogEntries (str ''unknown'', str ''unknown'', 0) =
      (fst (cat, subcat), snd (cat, subcat), h')"
    unfolding firstBest_def by (rule firstBestIn_fold)
  with assms(1) show "(c, s) = (cat, subcat)" by (auto simp: bestPattern_fold)
qed

lemma firstBest_startDateLabel:
  "firstBest startDateLabel (str ''experience'') (str ''startDate'')"
  by (simp add: firstBest_def catalogEntries_def eval_defs startDateLabel_def)

lemma not_strictlyBest_startDateLabel:
  "\<not> strictlyBest startDateLabel (str ''experience'') (str ''startDate'')"
  by (simp add: strictlyBest_def catalogEntries_def triggerPhrases_def eval_defs startDateLabel_def)

text \<open>
  Claim C3, amended. For a metadata record with \<open>labelForField\<close> and a label text equal
  to a trigger phrase of the catalog pair \<open>(cat, subcat)\<close>, that pair scores at least 7,
  and classification returns a catalog pair (never unknown) that scores at least as much,
  with confidence at least 0.8. The returned pair is \<open>(cat, subcat)\<close> itself exactly when
  it is the first pair of maximal score: every pair before it in the catalog scores
  strictly less, and no pair after it scores more. In particular it is returned whenever
  every other catalog pair scores strictly less.
\<close>

theorem label_binding_classification:
  assumes "labelForField m" "labelText m \<in> set (triggerPhrases cat subcat)"
  shows "case classify m of (c, s, conf) \<Rightarrow>
           c \<noteq> str ''unknown'' \<and>
           (c, s, triggerPhrases c s) \<in> set catalogEntries \<and>
           7 \<le> calculateMatchScore m (triggerPhrases cat subcat) \<and>
           calculateMatchScore m (triggerPhrases cat subcat) \<le> calculateMatchScore m (triggerPhrases c s) \<and>
           ((c, s) = (cat, subcat) \<longleftrightarrow> firstBest m cat subcat) \<and>
           (strictlyBest m cat subcat \<longrightarrow> (c, s) = (cat, subcat)) \<and>
           4 / 5 \<le> conf"
proof -
  obtain c s h where b: "bestPattern m = (c, s, h)" by (cases "bestPattern m") auto
  from assms(2) have ne: "triggerPhrases cat subcat \<noteq> []" by auto
  have mem: "(cat, subcat, triggerPhrases cat subcat) \<in> set catalogEntries"
    using ne by (rule triggerPhrases_in_catalog)
  with catalog_known have cat: "cat \<noteq> str ''unknown''" by (auto simp: list_all_iff)
  have seven: "7 \<le> calculateMatchScore m (triggerPhrases cat subcat)"
    using assms by (rule calculateMatchScore_label)
  have le: "calculateMatchScore m (triggerPhrases cat subcat) \<le> h"
    using b mem by (rule bestPattern_upper)
  with seven have h7: "7 \<le> h" by simp
  with bestPattern_cases [OF b] have known: "c \<noteq> str ''unknown''"
    and cmem: "(c, s, triggerPhrases c s) \<in> set catalogEntries"
    and hs: "h = calculateMatchScore m (triggerPhrases c s)" by auto
  from b known h7 have cf: "categorizeField m = (c, s)" by (simp add: categorizeField_def)
  have conf: "4 / 5 \<le> calculateConfidence m c s"
    using known assms(1) by (rule calculateConfidence_label)
  have uniq: "strictlyBest m cat subcat \<longrightarrow> (c, s) = (cat, subcat)"
    using strictlyBest_unique [OF _ cmem] le hs by blast
  have first: "(c, s) = (cat, subcat) \<longleftrightarrow> firstBest m cat subcat"
    using b cat by (rule bestPattern_firstBest)
  from cf known cmem seven le hs conf uniq first show ?thesis
    by (simp add: classify_def)
qed

text \<open>
  Witness for C3: the label "start date", bound by for/id, is a phrase of
  experience/startDate and of other/startDate. Both pairs score 7, the first of them is
  the first pair of maximal score, and it is the one returned. The label "email" is a
  phrase of personal/email only, which scores more than every other pair.
\<close>

theorem label_binding_classification_witness:
  "labelForField startDateLabel \<and>
   labelText startDateLabel \<in> set (triggerPhrases (str ''experience'') (str ''startDate'')) \<and>
   firstBest startDateLabel (str ''experience'') (str ''startDate'') \<and>
   \<not> strictlyBest startDateLabel (str ''experience'') (str ''startDate'') \<and>
   fst (classify startDateLabel) = str ''experience'' \<and>
   fst (snd (classify startDateLabel)) = str ''startDate'' \<and>
   4 / 5 \<le> snd (snd (classify startDateLabel)) \<and>
   labelForField emailLabel \<and>
   labelText emailLabel \<in> set (triggerPhrases (str ''personal'') (str ''email'')) \<and>
   strictlyBest emailLabel (str ''personal'') (str ''email'') \<and>
   fst (classify emailLabel) = str ''personal'' \<and>
   fst (snd (classify emailLabel)) = str ''email'' \<and>
   4 / 5 \<le> snd (snd (classify emailLabel))"
proof -
  have 1: "labelForField startDateLabel" by (simp add: startDateLabel_def emptyMetadata_def)
  have 2: "labelText startDateLabel \<in> set (triggerPhrases (str ''experience'') (str ''startDate''))"
    by (simp add: startDateLabel_def emptyMetadata_def triggerPhrases_def patterns_def str_def)
  have a: "fst (classify startDateLabel) = str ''experience'' \<and>
      fst (snd (classify startDateLabel)) = str ''startDate'' \<and>
      4 / 5 \<le> snd (snd (classify startDateLabel))"
    using label_binding_classification [OF 1 2] firstBest_startDateLabel
    by (auto split: prod.splits)
  have 3: "labelForField emailLabel" by (simp add: emailLabel_def emptyMetadata_def)
  have 4: "labelText emailLabel \<in> set (triggerPhrases (str ''personal'') (str ''email''))"
    by (simp add: emailLabel_def emptyMetadata_def triggerPhrases_def patterns_def str_def)
  have b: "fst (classify emailLabel) = str ''personal'' \<and>
      fst (snd (classify emailLabel)) = str ''email'' \<and>
      4 / 5 \<le> snd (snd (classify emailLabel))"
    using label_binding_classification [OF 3 4] strictlyBest_emailLabel
    by (auto split: prod.splits)
  from 1 2 3 4 a b firstBest_startDateLabel not_strictlyBest_startDateLabel
    strictlyBest_emailLabel show ?thesis by simp
qed

text \<open>
  Counterexample to C3 as stated: the label "first name", bound by for/id, is a trigger
  phrase of personal/firstName, yet the control is classified personal/name. The phrase
  "name" of personal/name occurs in the label too, both pairs score 7, and the earlier
  pair of the catalog keeps the tie.
\<close>
theorem label_binding_counterexample:
  "labelForField firstNameLabel \<and>
   labelText firstNameLabel \<in> set (triggerPhrases (str ''personal'') (str ''firstName'')) \<and>
   categorizeField firstNameLabel = (str ''personal'', str ''name'') \<and>
   categorizeField firstNameLabel \<noteq> (str ''personal'', str ''firstName'')"
proof -
  have 1: "labelForField firstNameLabel" by (simp add: firstNameLabel_def emptyMetadata_def)
  have 2: "labelText firstNameLabel \<in> set (triggerPhrases (str ''personal'') (str ''firstName''))"
    by (simp add: firstNameLabel_def emptyMetadata_def triggerPhrases_def patterns_def str_def)
  have 3: "categorizeField firstNameLabel = (str ''personal'', str ''name'')"
    using bestPattern_firstNameLabel by (simp add: categorizeField_def str_def)
  have 4: "str ''name'' \<noteq> str ''firstName''" by (simp add: str_def)
  from 1 2 3 4 show ?thesis by simp
qed

text \<open>
  Counterexample to C9 as stated: for the control with id "email" and type "email" the
  best pattern score is not 0, and the guard of the fallback stage is false.
\<close>
theorem email_field_counterexample:
  "\<not> (snd (snd (bestPattern emailField)) = 0) \<and>
   \<not> (fst (bestPattern emailField) = str ''unknown'' \<or> snd (snd (bestPattern emailField)) < 3)"
  using bestPattern_emailField by (simp add: str_def)

text \<open>
  Claim C9, amended. For the control with id "email", type "email" and every other channel
  empty, the id contains the trigger phrase "email", so personal/email scores 3 and is the
  best pattern match; 3 is not below the threshold, so the pair comes from the pattern
  match and not from the type rule. The classification is personal/email with
  confidence 1 (0.5, plus 0.3 for the type, plus 0.2 for the subcategory in the id).
\<close>
theorem email_field_classification:
  "calculateMatchScore emailField (triggerPhrases (str ''personal'') (str ''email'')) = 3 \<and>
   bestPattern emailField = (str ''personal'', str ''email'', 3) \<and>
   classify emailField = (str ''personal'', str ''email'', 1)"
proof -
  have 1: "calculateMatchScore emailField (triggerPhrases (str ''personal'') (str ''email'')) = 3"
    by (simp add: triggerPhrases_def eval_defs emailField_def)
  have 2: "categorizeField emailField = (str ''personal'', str ''email'')"
    using bestPattern_emailField by (simp add: categorizeField_def str_def)
  have 3: "calculateConfidence emailField (str ''personal'') (str ''email'') = 1"
    by (simp add: calculateConfidence_def emailField_def emptyMetadata_def str_def)
  from 1 2 3 bestPattern_emailField show ?thesis by (simp add: classify_def)
qed

text \<open>Witness for C9: the category and the subcategory read off the classification.\<close>

theorem email_field_classification_witness:
  "fst (classify emailField) = str ''personal'' \<and> fst (snd (classify emailField)) = str ''email'' \<and>
   snd (snd (classify emailField)) = 1"
  using email_field_classification by simp

text \<open>
  Claim C10. A category other than unknown has confidence at least 0.5, for any
  subcategory and also for the pair the classifier itself returns; a confidence is 0 or
  at least 0.5, never strictly between.
\<close>
theorem known_category_confidence:
  "(category \<noteq> str ''unknown'' \<longrightarrow> 1 / 2 \<le> calculateConfidence m category subcategory) \<and>
   (calculateConfidence m category subcategory = 0 \<or>
    1 / 2 \<le> calculateConfidence m category subcategory) \<and>
   (case classify m of (c, s, conf) \<Rightarrow> c \<noteq> str ''unknown'' \<longrightarrow> 1 / 2 \<le> conf)"
proof -
  have 1: "category \<noteq> str ''unknown'' \<longrightarrow> 1 / 2 \<le> calculateConfidence m category subcategory" for category subcategory
    using calculateConfidence_lower by blast
  have 2: "calculateConfidence m category subcategory = 0 \<or>
    1 / 2 \<le> calculateConfidence m category subcategory"
    using 1 [of category subcategory] by (cases "category = str ''unknown''") simp_all
  have 3: "case classify m of (c, s, conf) \<Rightarrow> c \<noteq> str ''unknown'' \<longrightarrow> 1 / 2 \<le> conf"
    using 1 by (simp add: classify_def split: prod.splits)
  from 1 2 3 show ?thesis by blast
qed

text \<open>Witness for C10: a control classified personal/phone by its type alone.\<close>
theorem known_category_confidence_witness:
  "fst (classify cityTitleTel) \<noteq> str ''unknown'' \<and> 1 / 2 \<le> snd (snd (classify cityTitleTel))"
proof -
  have c: "categorizeField cityTitleTel = (str ''personal'', str ''phone'')"
    using bestPattern_cityTitleTel
    by (simp add: categorizeField_def fieldTypeHeuristics_def cityTitleTel_def emptyMetadata_def str_def)
  then have k: "fst (classify cityTitleTel) \<noteq> str ''unknown''"
    by (simp add: classify_def str_def)
  with known_category_confidence [of "fst (classify cityTitleTel)" cityTitleTel "fst (snd (classify cityTitleTel))"]
  show ?thesis by (simp add: classify_def split: prod.splits)
qed

section \<open>Resume parser: properties of the skills extractor\<close>

lemma consHead_cases:
  "t \<in> set (consHead x ts) \<Longrightarrow> t = [x] \<or> (\<exists>u \<in> set ts. t = x # u) \<or> t \<in> set ts"
  by (cases ts) auto

lemma splitRuns_pieces: "t \<in> set (splitRuns P s) \<Longrightarrow> \<forall>c \<in> set t. \<not> P c"
proof (induction P s arbitrary: t rule: splitRuns.induct)
  case (1 P)
  then show ?case by simp
next
  case (2 P x xs)
  show ?case
  proof (cases "P x")
    case True
    with "2.prems" have "t = [] \<or> t \<in> set (splitRuns P (dropWhile P xs))" by simp
    then show ?thesis
    proof
      assume "t = []"
      then show ?thesis by simp
    next
      assume "t \<in> set (splitRuns P (dropWhile P xs))"
      then show ?thesis by (rule "2.IH"(1) [OF True])
    qed
  next
    case False
    with "2.prems" have "t \<in> set (consHead x (splitRuns P xs))" by simp
    then consider "t = [x]" | u where "u \<in> set (splitRuns P xs)" "t = x # u" | "t \<in> set (splitRuns P xs)"
      using consHead_cases by blast
    then show ?thesis
    proof cases
      case 1
      with False show ?thesis by simp
    next
      case 2
      with "2.IH"(2) [OF False, of u] False show ?thesis by simp
    next
      case 3
      with "2.IH"(2) [OF False, of t] show ?thesis by simp
    qed
  qed
qed

lemma dropWhile_none: "\<forall>c \<in> set w. \<not> P c \<Longrightarrow> dropWhile P w = w"
  by (cases w) simp_all

lemma trim_no_space: "\<forall>c \<in> set w. \<not> isSpace c \<Longrightarrow> trim w = w"
proof -
  assume a: "\<forall>c \<in> set w. \<not> isSpace c"
  then have "\<forall>c \<in> set (rev w). \<not> isSpace c" by simp
  then have "dropWhile isSpace (rev w) = rev w" by (rule dropWhile_none)
  moreover from a have "dropWhile isSpace w = w" by (rule dropWhile_none)
  ultimately show ?thesis by (simp add: trim_def)
qed

lemma skillsOfString_amended: "skillsOfString text = skillsAmended text"
proof -
  have p: "(\<lambda>c. \<not> isPunctuation c) = (\<lambda>c. c \<notin> {44, 46, 59, 58})"
    by (simp add: isPunctuation_def)
  have t: "filter (\<lambda>c. \<not> isPunctuation c) (trim w) = filter (\<lambda>c. c \<notin> {44, 46, 59, 58}) w"
    if "w \<in> set (filter (\<lambda>word. length word > 2) (splitRuns isSpace text))" for w
  proof -
    from that have "w \<in> set (splitRuns isSpace text)" by simp
    then have "trim w = w" by (intro trim_no_space splitRuns_pieces)
    with p show ?thesis by simp
  qed
  have m: "map (\<lambda>word. filter (\<lambda>c. \<not> isPunctuation c) (trim word))
             (filter (\<lambda>word. length word > 2) (splitRuns isSpace text)) =
           map (filter (\<lambda>c. c \<notin> {44, 46, 59, 58}))
             (filter (\<lambda>w. \<not> length w \<le> 2) (splitRuns isSpace text))"
    using t by (simp add: not_le cong: map_cong)
  show ?thesis
    unfolding skillsOfString_def skillsAmended_def Let_def m by (simp add: not_le)
qed

lemmas skills_eval = skillsOfString_def skillsSpec_def trim_def isSpace_def isSkillDelimiter_def
  isPunctuation_def stripTrailingPunctuation_def str_def Let_def

lemma skills_python: "skillsOfString (str ''Python, Go, Rust'') = [str ''Python'', str ''Go'', str ''Rust'']"
  by (simp add: skills_eval)

lemma skills_node: "skillsOfString nodeSkills =
   map str [''have'', ''used'', ''nodejs'', ''for'', ''many'', ''years'', ''large'', ''projects'', ''work'']"
  by (simp add: skills_eval nodeSkills_def)

lemma skillsSpec_node: "skillsSpec nodeSkills =
   map str [''have'', ''used'', ''node.js'', ''for'', ''many'', ''years'', ''large'', ''projects'', ''work'']"
  by (simp add: skills_eval nodeSkills_def)

text \<open>
  Claim C8, amended. On a string, \<open>parseSkills\<close> returns the trimmed non-empty pieces between
  the runs of comma, bullet, vertical bar, middle dot, asterisk, plus sign and line feed,
  unless these are fewer than 3 and the split at white space has more than 10 pieces:
  then it returns the white-space tokens longer than 2 code units, each with every comma,
  full stop, semicolon and colon removed, wherever it stands in the token. In particular
  "Python, Go, Rust" gives Python, Go, Rust.
\<close>

theorem parseSkills_tokens:
  "parseSkills (JStr text) = Inr (skillsAmended text) \<and>
   parseSkills (JStr (str ''Python, Go, Rust'')) = Inr [str ''Python'', str ''Go'', str ''Rust'']"
proof -
  have e: "skillsOfString [] = []" by (simp add: skills_eval)
  then have 1: "parseSkills (JStr s) = Inr (skillsOfString s)" for s
    by (simp add: parseSkills_def)
  from 1 [of "text"] 1 [of "str ''Python, Go, Rust''"] skills_python show ?thesis
    by (simp add: skillsOfString_amended)
qed

text \<open>Witness for C8: a sentence of twelve words, where the fallback runs.\<close>

theorem parseSkills_tokens_witness:
  "parseSkills (JStr nodeSkills) = Inr (skillsAmended nodeSkills) \<and>
   skillsAmended nodeSkills =
     map str [''have'', ''used'', ''nodejs'', ''for'', ''many'', ''years'', ''large'', ''projects'', ''work'']"
  using parseSkills_tokens [of nodeSkills] skills_node
  by (simp add: skillsOfString_amended)

text \<open>
  Counterexample to C8 as stated: in a sentence of twelve words the token "node.js" has no
  punctuation at its end, so stripping trailing punctuation keeps it; the source returns
  "nodejs".
\<close>

theorem parseSkills_counterexample:
  "parseSkills (JStr nodeSkills) \<noteq> Inr (skillsSpec nodeSkills) \<and>
   str ''node.js'' \<in> set (skillsSpec nodeSkills) \<and>
   parseSkills (JStr nodeSkills) =
     Inr (map str [''have'', ''used'', ''nodejs'', ''for'', ''many'', ''years'', ''large'',
       ''projects'', ''work''])"
proof -
  have 1: "parseSkills (JStr nodeSkills) = Inr (skillsOfString nodeSkills)"
    by (simp add: parseSkills_def nodeSkills_def str_def)
  have 2: "skillsOfString nodeSkills \<noteq> skillsSpec nodeSkills"
    unfolding skills_node skillsSpec_node by (simp add: str_def)
  have 3: "str ''node.js'' \<in> set (skillsSpec nodeSkills)"
    unfolding skillsSpec_node by simp
  from 1 2 3 skills_node show ?thesis by simp
qed

section \<open>Resume parser: properties of the section splitter\<close>

lemma headerLoop_None_iff:
  "headerLoop c hs = None \<longleftrightarrow> \<not> list_ex (headerMatches c) (concat (map snd hs))"
  by (induction c hs rule: headerLoop.induct) (auto simp: list_ex_iff)

lemma headerLoop_Some:
  "headerLoop c hs = Some t \<Longrightarrow> \<exists>headers. (t, headers) \<in> set hs \<and> list_ex (headerMatches c) headers"
  by (induction c hs rule: headerLoop.induct) (auto split: if_splits)

lemma no_empty_header: "\<not> list_ex (headerMatches []) (concat (map snd sectionHeaders))"
  by (simp add: sectionHeaders_def headerMatches_def str_def)

lemma lineLoop_append:
  "lineLoop lower ls k hs acc = acc @ lineLoop lower ls k hs []"
proof (induction ls arbitrary: k acc)
  case Nil
  then show ?case by simp
next
  case (Cons l ls)
  show ?case
  proof (cases "lower (trim l) = [] \<or> headerLoop (lower (trim l)) hs = None")
    case True
    then show ?thesis using Cons.IH [of "k + 1" acc] by (auto simp: Let_def)
  next
    case False
    then obtain t where t: "headerLoop (lower (trim l)) hs = Some t" and ne: "lower (trim l) \<noteq> []"
      by auto
    from Cons.IH [of "k + 1" "acc @ [(t, k)]"] Cons.IH [of "k + 1" "[(t, k)]"] t ne
    show ?thesis by (simp add: Let_def)
  qed
qed

lemma lineLoop_Cons:
  "lineLoop lower (l # ls) k hs [] =
     (if lower (trim l) = [] then []
      else case headerLoop (lower (trim l)) hs of None \<Rightarrow> [] | Some t \<Rightarrow> [(t, k)])
     @ lineLoop lower ls (Suc k) hs []"
proof (cases "headerLoop (lower (trim l)) hs")
  case None
  then show ?thesis by (simp add: Let_def)
next
  case (Some t)
  with lineLoop_append [of lower ls "Suc k" hs "[(t, k)]"] show ?thesis
    by (simp add: Let_def)
qed

lemma lineLoop_set:
  "(t, i) \<in> set (lineLoop lower ls k hs []) \<longleftrightarrow>
     k \<le> i \<and> i < k + length ls \<and> lower (trim (ls ! (i - k))) \<noteq> [] \<and>
     headerLoop (lower (trim (ls ! (i - k)))) hs = Some t"
proof (induction ls arbitrary: k)
  case Nil
  then show ?case by simp
next
  case (Cons l ls)
  show ?case
  proof (cases "i = k")
    case True
    have "(t, k) \<notin> set (lineLoop lower ls (Suc k) hs [])"
      using Cons.IH [of "Suc k"] True by simp
    with True show ?thesis
      unfolding lineLoop_Cons by (auto split: option.splits)
  next
    case False
    have "(t, i) \<in> set (lineLoop lower (l # ls) k hs []) \<longleftrightarrow>
          (t, i) \<in> set (lineLoop lower ls (Suc k) hs [])"
      unfolding lineLoop_Cons using False by (auto split: option.splits)
    also have "\<dots> \<longleftrightarrow> Suc k \<le> i \<and> i < Suc k + length ls \<and>
        lower (trim (ls ! (i - Suc k))) \<noteq> [] \<and> headerLoop (lower (trim (ls ! (i - Suc k)))) hs = Some t"
      by (rule Cons.IH)
    also have "\<dots> \<longleftrightarrow> k \<le> i \<and> i < k + length (l # ls) \<and>
        lower (trim ((l # ls) ! (i - k))) \<noteq> [] \<and> headerLoop (lower (trim ((l # ls) ! (i - k)))) hs = Some t"
    proof (cases "k < i")
      case True
      then have "(l # ls) ! (i - k) = ls ! (i - Suc k)" by (simp add: nth_Cons')
      with True show ?thesis by auto
    next
      case False
      with \<open>i \<noteq> k\<close> show ?thesis by auto
    qed
    finally show ?thesis .
  qed
qed

lemma lineLoop_sorted:
  "sorted_wrt (<) (map snd (lineLoop lower ls k hs []))"
proof (induction ls arbitrary: k)
  case Nil
  then show ?case by simp
next
  case (Cons l ls)
  have "\<forall>b \<in> set (lineLoop lower ls (Suc k) hs []). k < snd b"
    using lineLoop_set [of _ _ lower ls "Suc k" hs] by auto
  with Cons.IH [of "Suc k"] show ?case
    unfolding lineLoop_Cons by (auto simp: sorted_wrt_append split: option.splits)
qed

lemma findSectionBoundaries_lineLoop:
  "findSectionBoundaries lower lines hs = lineLoop lower lines 0 hs []"
proof -
  have "sorted (map snd (lineLoop lower lines 0 hs []))"
    using lineLoop_sorted [of lower lines 0 hs] by (simp add: strict_sorted_iff)
  then show ?thesis
    unfolding findSectionBoundaries_def by (rule sort_key_id_if_sorted)
qed

lemma boundary_iff_header_line:
  "(\<exists>t. (t, i) \<in> set (findSectionBoundaries lower lines sectionHeaders)) \<longleftrightarrow>
     i < length lines \<and> isHeaderLine lower (lines ! i)"
proof -
  have "(\<exists>t. (t, i) \<in> set (findSectionBoundaries lower lines sectionHeaders)) \<longleftrightarrow>
        i < length lines \<and> lower (trim (lines ! i)) \<noteq> [] \<and>
        headerLoop (lower (trim (lines ! i))) sectionHeaders \<noteq> None"
    by (auto simp: findSectionBoundaries_lineLoop lineLoop_set)
  also have "\<dots> \<longleftrightarrow> i < length lines \<and> isHeaderLine lower (lines ! i)"
    using no_empty_header by (auto simp: headerLoop_None_iff isHeaderLine_def)
  finally show ?thesis .
qed

lemma sectionLoop_other:
  "t \<notin> fst ` set bs \<Longrightarrow> sectionLoop lines bs sections t = sections t"
  by (induction lines bs sections rule: sectionLoop.induct) auto

lemma sectionLoop_last:
  "t \<notin> fst ` set post \<Longrightarrow>
     sectionLoop lines (pre @ (t, i) # post) sections t = Some (sectionText lines i post)"
proof (induction pre arbitrary: sections)
  case Nil
  then show ?case by (simp add: sectionLoop_other)
next
  case (Cons b pre)
  obtain t' j where b: "b = (t', j)" by (cases b) auto
  from Cons.IH [OF Cons.prems] show ?case by (simp add: b)
qed

lemmas sections_eval = sectionLines_def normalizeText_def replaceCR_def trim_def isSpace_def
  str_def twoSkills_def

lemma lines_twoSkills:
  "sectionLines twoSkills =
     [str ''Jo'', str ''Skills'', str ''my skills: C'', str '' SKILLS: '', str ''Go'']"
  by (simp add: sections_eval)

lemma boundaries_twoSkills:
  "findSectionBoundaries asciiLower (sectionLines twoSkills) sectionHeaders =
     [(str ''skills'', 1), (str ''skills'', 3)]"
  unfolding lines_twoSkills
  by (simp add: findSectionBoundaries_lineLoop sectionHeaders_def headerMatches_def
      asciiLower_def trim_def isSpace_def str_def Let_def)

text \<open>
  Claim C6. Let \<open>lines\<close> be the lines of the normalised text and \<open>bs\<close> the boundaries found
  in them. Line \<open>i\<close> is a boundary if and only if, trimmed and lower-cased, it is equal to a
  header synonym or to a synonym followed by a colon; a longer line that contains a
  header is none. When \<open>bs\<close> holds the boundary \<open>(t, k)\<close> and no later boundary of the same
  section \<open>t\<close>, the text stored for \<open>t\<close> is the one of this boundary, whatever earlier
  boundaries of \<open>t\<close> had stored: the later header overwrites.
\<close>

theorem section_boundaries:
  assumes "lines = sectionLines s" and "bs = findSectionBoundaries lower lines sectionHeaders"
  shows "((\<exists>t. (t, i) \<in> set bs) \<longleftrightarrow> i < length lines \<and> isHeaderLine lower (lines ! i)) \<and>
         (bs = pre @ (t, k) # post \<and> t \<notin> fst ` set post \<longrightarrow>
            sectionsOfString lower s t = Some (sectionText lines k post))"
proof -
  have 1: "(\<exists>t. (t, i) \<in> set bs) \<longleftrightarrow> i < length lines \<and> isHeaderLine lower (lines ! i)"
    unfolding assms(2) by (rule boundary_iff_header_line)
  have 2: "sectionsOfString lower s t = Some (sectionText lines k post)"
    if "bs = pre @ (t, k) # post" "t \<notin> fst ` set post"
  proof -
    from that(1) assms
    have "findSectionBoundaries lower (sectionLines s) sectionHeaders = pre @ (t, k) # post"
      by simp
    then show ?thesis
      using sectionLoop_last [OF that(2), of "sectionLines s" pre k] assms(1)
      by (simp add: sectionsOfString_def Let_def)
  qed
  from 1 2 show ?thesis by blast
qed

text \<open>Witness for C6: lines 1 and 3 are headers of skills, line 2 only mentions one; the
  section skills holds the text after line 3.\<close>

theorem section_boundaries_witness:
  "findSectionBoundaries asciiLower (sectionLines twoSkills) sectionHeaders =
     [(str ''skills'', 1), (str ''skills'', 3)] \<and>
   isHeaderLine asciiLower (sectionLines twoSkills ! 3) \<and>
   \<not> isHeaderLine asciiLower (sectionLines twoSkills ! 2) \<and>
   sectionsOfString asciiLower twoSkills (str ''skills'') = Some (str ''Go'')"
proof -
  let ?lines = "sectionLines twoSkills"
  let ?bs = "findSectionBoundaries asciiLower ?lines sectionHeaders"
  note th = section_boundaries [OF refl refl, of _ asciiLower twoSkills]
  have len: "length ?lines = 5" by (simp add: lines_twoSkills)
  have "\<exists>t. (t, 3) \<in> set ?bs" unfolding boundaries_twoSkills by simp
  with th [of 3] have a: "isHeaderLine asciiLower (?lines ! 3)" by blast
  have "\<not> (\<exists>t. (t, 2) \<in> set ?bs)" unfolding boundaries_twoSkills by simp
  with th [of 2] len have b: "\<not> isHeaderLine asciiLower (?lines ! 2)" by simp
  have "?bs = [(str ''skills'', 1)] @ (str ''skills'', 3) # []"
    unfolding boundaries_twoSkills by simp
  with th [of 0 "[(str ''skills'', 1)]" "str ''skills''" 3 "[]"]
  have "sectionsOfString asciiLower twoSkills (str ''skills'') = Some (sectionText ?lines 3 [])"
    by simp
  moreover have "sectionText ?lines 3 [] = str ''Go''"
    unfolding lines_twoSkills by (simp add: sectionText_def slice_def)
  ultimately show ?thesis using a b boundaries_twoSkills by simp
qed


section \<open>Resume parser: properties of parse and of the entry extractors\<close>

text \<open>The matcher at work: the first line of an experience splits at the word "at" into a
  title and a company.\<close>

lemmas regex_eval = matchRe.simps(5,6) execRe_def chr_def chrI_def lit_def litI_def oneOrMore_def
  rep_def digit_def space_def dot_def isDigit_def isUpper_def isLower_def isAlnum_def isSpace_def
  foldCase_def atWordBoundary_def isWordChar_def str_def

lemma titleCompanyPattern_example:
  "execRe titleCompanyPattern (str ''Software Engineer at Acme Corp'') =
     Some (str ''Software Engineer at Acme Corp'',
       [1 \<mapsto> str ''Software Engineer'', 2 \<mapsto> str ''Acme Corp''])"
  by (simp add: regex_eval titleCompanyPattern_def)

lemma splitChar_nonempty: "splitChar sep s \<noteq> []"
proof (induction s)
  case Nil
  then show ?case by simp
next
  case (Cons x xs)
  then show ?case by (cases "splitChar sep xs") auto
qed

lemma matchRe_caps:
  "st' \<in> set (matchRe r st) \<Longrightarrow> k \<in> groupsSet r \<or> snd (snd st) k \<noteq> None \<Longrightarrow>
     snd (snd st') k \<noteq> None"
proof (induction r st arbitrary: st' rule: matchRe.induct)
  case (1 P prev rest caps)
  then show ?case by (cases rest) (auto split: if_splits)
next
  case (2 st)
  then show ?case by simp
next
  case (3 a b st)
  from "3.prems"(1) obtain st1 where m: "st1 \<in> set (matchRe a st)"
    and n: "st' \<in> set (matchRe b st1)" by auto
  show ?case
  proof (cases "k \<in> groupsSet b")
    case True
    with "3.IH"(2) [OF m n] show ?thesis by blast
  next
    case False
    with "3.prems"(2) have "k \<in> groupsSet a \<or> snd (snd st) k \<noteq> None" by simp
    from "3.IH"(1) [OF m this] have "snd (snd st1) k \<noteq> None" .
    with "3.IH"(2) [OF m n] show ?thesis by blast
  qed
next
  case (4 a b st)
  from "4.prems"(1) have "st' \<in> set (matchRe a st) \<or> st' \<in> set (matchRe b st)" by simp
  then show ?case
  proof
    assume "st' \<in> set (matchRe a st)"
    moreover from "4.prems"(2) have "k \<in> groupsSet a \<or> snd (snd st) k \<noteq> None" by auto
    ultimately show ?thesis by (rule "4.IH"(1))
  next
    assume "st' \<in> set (matchRe b st)"
    moreover from "4.prems"(2) have "k \<in> groupsSet b \<or> snd (snd st) k \<noteq> None" by auto
    ultimately show ?thesis by (rule "4.IH"(2))
  qed
next
  case (5 a st)
  from "5.prems"(2) have c: "snd (snd st) k \<noteq> None" by simp
  from "5.prems"(1) consider "st' = st"
    | st1 where "st1 \<in> set (matchRe a st)" "progress st st1" "st' \<in> set (matchRe (Star a) st1)"
    unfolding matchRe.simps(5) [of a st] by (auto split: if_splits)
  then show ?case
  proof cases
    case 1
    with c show ?thesis by simp
  next
    case 2
    from "5.IH"(1) [OF 2(1)] c have "snd (snd st1) k \<noteq> None" by blast
    with "5.IH"(2) [OF 2] show ?thesis by blast
  qed
next
  case (6 a st)
  from "6.prems"(2) have c: "snd (snd st) k \<noteq> None" by simp
  from "6.prems"(1) consider "st' = st"
    | st1 where "st1 \<in> set (matchRe a st)" "progress st st1" "st' \<in> set (matchRe (StarLazy a) st1)"
    unfolding matchRe.simps(6) [of a st] by (auto split: if_splits)
  then show ?case
  proof cases
    case 1
    with c show ?thesis by simp
  next
    case 2
    from "6.IH"(1) [OF 2(1)] c have "snd (snd st1) k \<noteq> None" by blast
    with "6.IH"(2) [OF 2] show ?thesis by blast
  qed
next
  case (7 a st)
  from "7.prems"(2) have c: "snd (snd st) k \<noteq> None" by simp
  from "7.prems"(1) have "st' = st \<or> st' \<in> set (matchRe a st)" by auto
  then show ?case
  proof
    assume "st' = st"
    with c show ?thesis by simp
  next
    assume "st' \<in> set (matchRe a st)"
    from "7.IH" [OF this] c show ?thesis by blast
  qed
next
  case (8 j a prev rest caps)
  from "8.prems"(1) obtain p1 r1 c1 where m: "(p1, r1, c1) \<in> set (matchRe a (prev, rest, caps))"
    and s: "snd (snd st') = c1(j \<mapsto> take (length rest - length r1) rest)" by auto
  show ?case
  proof (cases "k = j")
    case True
    with s show ?thesis by simp
  next
    case False
    with "8.prems"(2) have "k \<in> groupsSet a \<or> snd (snd (prev, rest, caps)) k \<noteq> None" by simp
    from "8.IH" [OF m this] False s show ?thesis by simp
  qed
next
  case (9 prev rest caps)
  then show ?case by (simp split: if_splits)
next
  case (10 prev rest caps)
  then show ?case by (simp split: if_splits)
next
  case (11 prev rest caps)
  then show ?case by (simp split: if_splits)
qed

lemma execFrom_groups:
  "execFrom r prev s = Some (matched, caps) \<Longrightarrow> k \<in> groupsSet r \<Longrightarrow> caps k \<noteq> None"
proof (induction r prev s rule: execFrom.induct)
  case (1 r prev)
  from "1.prems"(1) obtain p1 r1 alts where "matchRe r (prev, [], Map.empty) = (p1, r1, caps) # alts"
    by (auto split: list.splits)
  then have "(p1, r1, caps) \<in> set (matchRe r (prev, [], Map.empty))" by simp
  from matchRe_caps [OF this, of k] "1.prems"(2) show ?case by simp
next
  case (2 r prev c cs)
  show ?case
  proof (cases "matchRe r (prev, c # cs, Map.empty)")
    case Nil
    with "2.prems" "2.IH" show ?thesis by simp
  next
    case (Cons st alts)
    with "2.prems"(1) obtain p1 r1 where "st = (p1, r1, caps)" by (cases st) auto
    with Cons have "(p1, r1, caps) \<in> set (matchRe r (prev, c # cs, Map.empty))" by simp
    from matchRe_caps [OF this, of k] "2.prems"(2) show ?thesis by simp
  qed
qed

lemma groups_titleCompany: "{1, 2} \<subseteq> groupsSet titleCompanyPattern"
  by (simp add: titleCompanyPattern_def)

lemma groups_degreeSchool: "{1, 2} \<subseteq> groupsSet degreeSchoolPattern"
  by (simp add: degreeSchoolPattern_def)

lemma experienceOfBlock_total: "\<exists>entry. experienceOfBlock block = Inr entry"
proof -
  obtain firstLine others where l: "splitChar 10 (trim block) = firstLine # others"
    using splitChar_nonempty [of 10 "trim block"] by (cases "splitChar 10 (trim block)") auto
  show ?thesis
  proof (cases "execRe titleCompanyPattern firstLine")
    case None
    with l show ?thesis by (simp add: experienceOfBlock_def Let_def)
  next
    case (Some m)
    obtain matched caps where m: "m = (matched, caps)" by (cases m) auto
    from Some m have e: "execFrom titleCompanyPattern None firstLine = Some (matched, caps)"
      by (simp add: execRe_def)
    from execFrom_groups [OF e, of 1] execFrom_groups [OF e, of 2] groups_titleCompany
    obtain g1 g2 where "caps 1 = Some g1" "caps 2 = Some g2" by auto
    with l Some m show ?thesis by (simp add: experienceOfBlock_def Let_def)
  qed
qed

lemma experienceLoop_total: "\<exists>entries. experienceLoop blocks acc = Inr entries"
proof (induction blocks arbitrary: acc)
  case Nil
  then show ?case by simp
next
  case (Cons block blocks)
  obtain entry where "experienceOfBlock block = Inr entry"
    using experienceOfBlock_total by blast
  with Cons.IH show ?case by simp
qed

lemma educationOfBlock_total: "\<exists>entry. educationOfBlock lower block = Inr entry"
proof -
  obtain firstLine others where l: "splitChar 10 (trim block) = firstLine # others"
    using splitChar_nonempty [of 10 "trim block"] by (cases "splitChar 10 (trim block)") auto
  show ?thesis
  proof (cases "execRe degreeSchoolPattern firstLine")
    case None
    with l show ?thesis by (simp add: educationOfBlock_def Let_def)
  next
    case (Some m)
    obtain matched caps where m: "m = (matched, caps)" by (cases m) auto
    from Some m have e: "execFrom degreeSchoolPattern None firstLine = Some (matched, caps)"
      by (simp add: execRe_def)
    from execFrom_groups [OF e, of 1] execFrom_groups [OF e, of 2] groups_degreeSchool
    obtain g1 g2 where "caps 1 = Some g1" "caps 2 = Some g2" by auto
    with l Some m show ?thesis by (simp add: educationOfBlock_def Let_def)
  qed
qed

lemma educationLoop_total: "\<exists>entries. educationLoop lower blocks acc = Inr entries"
proof (induction blocks arbitrary: acc)
  case Nil
  then show ?case by simp
next
  case (Cons block blocks)
  obtain entry where "educationOfBlock lower block = Inr entry"
    using educationOfBlock_total by blast
  with Cons.IH show ?case by simp
qed

lemma parseExperience_string: "\<exists>entries. parseExperience (JStr s) = Inr entries"
  using experienceLoop_total by (simp add: parseExperience_def)

lemma parseEducation_string: "\<exists>entries. parseEducation lower (JStr s) = Inr entries"
  using educationLoop_total by (simp add: parseEducation_def)

lemma parseSkills_string: "\<exists>entries. parseSkills (JStr s) = Inr entries"
  by (simp add: parseSkills_def)

lemma extractors_falsy:
  "\<not> truthy v \<Longrightarrow>
     parseExperience v = Inr [] \<and> parseEducation lower v = Inr [] \<and> parseSkills v = Inr []"
  by (simp add: parseExperience_def parseEducation_def parseSkills_def)

lemma parseExperience_property:
  "\<exists>entries. parseExperience (property p) = Inr entries \<and> (p = None \<longrightarrow> entries = [])"
proof (cases p)
  case None
  then show ?thesis by (simp add: parseExperience_def)
next
  case (Some s)
  with parseExperience_string [of s] show ?thesis by simp
qed

lemma parseEducation_property:
  "\<exists>entries. parseEducation lower (property p) = Inr entries \<and> (p = None \<longrightarrow> entries = [])"
proof (cases p)
  case None
  then show ?thesis by (simp add: parseEducation_def)
next
  case (Some s)
  with parseEducation_string [of lower s] show ?thesis by simp
qed

lemma parseSkills_property:
  "\<exists>entries. parseSkills (property p) = Inr entries \<and> (p = None \<longrightarrow> entries = [])"
proof (cases p)
  case None
  then show ?thesis by (simp add: parseSkills_def)
next
  case (Some s)
  with parseSkills_string [of s] show ?thesis by simp
qed

lemma sectionLoop_defined:
  "sections k \<noteq> None \<Longrightarrow> sectionLoop lines bs sections k \<noteq> None"
  by (induction lines bs sections rule: sectionLoop.induct) auto

lemma header_defined: "\<exists>h. sectionsOfString lower s (str ''header'') = Some h"
proof -
  have "sectionsOfString lower s (str ''header'') \<noteq> None"
    unfolding sectionsOfString_def Let_def by (rule sectionLoop_defined) simp
  then show ?thesis by auto
qed

lemma parse_not_string: "\<not> isString v \<Longrightarrow> parse lower v = Inl TypeError"
  by (cases v) (simp_all add: isString_def parse_def extractSections_def)

lemma parse_string:
  "\<exists>r. parse lower (JStr s) = Inr r \<and> rawText r = JStr s \<and>
       (sectionsOfString lower s (str ''experience'') = None \<longrightarrow> experience r = []) \<and>
       (sectionsOfString lower s (str ''education'') = None \<longrightarrow> education r = []) \<and>
       (sectionsOfString lower s (str ''skills'') = None \<longrightarrow> skills r = [])"
proof -
  let ?sections = "sectionsOfString lower s"
  obtain h where h: "?sections (str ''header'') = Some h" using header_defined by blast
  have i: "\<exists>info. parsePersonalInfo (JStr s) (property (?sections (str ''header''))) = Inr info"
    by (simp add: h parsePersonalInfo_def)
  from parseExperience_property [of "?sections (str ''experience'')"]
  obtain ex where ex: "parseExperience (property (?sections (str ''experience''))) = Inr ex"
    "?sections (str ''experience'') = None \<longrightarrow> ex = []" by (elim exE conjE)
  from parseEducation_property [of lower "?sections (str ''education'')"]
  obtain ed where ed: "parseEducation lower (property (?sections (str ''education''))) = Inr ed"
    "?sections (str ''education'') = None \<longrightarrow> ed = []" by (elim exE conjE)
  from parseSkills_property [of "?sections (str ''skills'')"]
  obtain sk where sk: "parseSkills (property (?sections (str ''skills''))) = Inr sk"
    "?sections (str ''skills'') = None \<longrightarrow> sk = []" by (elim exE conjE)
  from i obtain info where
    info: "parsePersonalInfo (JStr s) (property (?sections (str ''header''))) = Inr info" by blast
  have "parse lower (JStr s) = Inr \<lparr>personalInfo = info, experience = ex, education = ed,
              skills = sk, rawText = JStr s\<rparr>"
    unfolding parse_def extractSections_def
    by (simp only: jsval.case sum.case info ex(1) ed(1) sk(1))
  with ex(2) ed(2) sk(2) show ?thesis by simp
qed

text \<open>
  Claim C7, amended. \<open>parse\<close> called with a value that is not a string (undefined, null, a
  boolean, a number) fails: the \<open>TypeError\<close> of \<open>extractSections\<close> is caught, logged and
  thrown again to the caller. Called with a string, \<open>parse\<close> returns a record that holds
  the string as \<open>rawText\<close>, with an empty array for each of experience, education and
  skills whose section the text does not have. \<open>parseExperience\<close>, \<open>parseEducation\<close> and
  \<open>parseSkills\<close> return an empty array when their section text is absent, or falsy in any
  other way.
\<close>

theorem parse_malformed_input:
  "(\<not> isString v \<longrightarrow> parse lower v = Inl TypeError) \<and>
   (\<not> truthy v \<longrightarrow>
      parseExperience v = Inr [] \<and> parseEducation lower v = Inr [] \<and> parseSkills v = Inr []) \<and>
   (\<exists>r. parse lower (JStr s) = Inr r \<and> rawText r = JStr s \<and>
       (sectionsOfString lower s (str ''experience'') = None \<longrightarrow> experience r = []) \<and>
       (sectionsOfString lower s (str ''education'') = None \<longrightarrow> education r = []) \<and>
       (sectionsOfString lower s (str ''skills'') = None \<longrightarrow> skills r = []))"
  using parse_not_string [of v lower] extractors_falsy [of v lower] parse_string [of lower s]
  by blast

lemma sections_Jo:
  "sectionsOfString asciiLower (str ''Jo'') (str ''experience'') = None \<and>
   sectionsOfString asciiLower (str ''Jo'') (str ''education'') = None \<and>
   sectionsOfString asciiLower (str ''Jo'') (str ''skills'') = None"
  by (simp add: sectionsOfString_def sectionLines_def normalizeText_def replaceCR_def trim_def
      isSpace_def findSectionBoundaries_def sectionHeaders_def headerMatches_def asciiLower_def
      str_def Let_def)

text \<open>Witness for C7: \<open>undefined\<close> in place of the text, and a resume that is a name only.\<close>

theorem parse_malformed_input_witness:
  "parse asciiLower JUndefined = Inl TypeError \<and>
   parseExperience JUndefined = Inr [] \<and> parseEducation asciiLower JUndefined = Inr [] \<and>
   parseSkills JUndefined = Inr [] \<and>
   (\<exists>r. parse asciiLower (JStr (str ''Jo'')) = Inr r \<and> rawText r = JStr (str ''Jo'') \<and>
        experience r = [] \<and> education r = [] \<and> skills r = [])"
proof -
  have 1: "\<not> isString JUndefined" by (simp add: isString_def)
  have 2: "\<not> truthy JUndefined" by simp
  from parse_malformed_input [of JUndefined asciiLower "str ''Jo''"] 1 2 sections_Jo
  show ?thesis by auto
qed

text \<open>
  Counterexample to C7 as stated: \<open>parse\<close> called with \<open>undefined\<close>, or with the number 42,
  propagates a \<open>TypeError\<close> and yields no record.
\<close>

theorem parse_malformed_input_counterexample:
  "parse asciiLower JUndefined = Inl TypeError \<and> parse asciiLower (JNum 42) = Inl TypeError"
  by (simp add: parse_def extractSections_def)


end
